theory Spec2Isabelle
  imports Complex_Main "HOL-Library.Word"
begin

section \<open>Go values: byte slices, panics and errors\<close>

text \<open>
  A Go \<open>[]byte\<close> and a Go \<open>string\<close> are both sequences of bytes; an Isabelle
  \<open>char\<close> is one byte, so both are \<open>char list\<close>. A nil slice and an empty slice
  are the same sequence \<open>[]\<close>: \<open>bytes.Compare\<close> and \<open>bytes.Contains\<close> do not
  tell them apart.

  Go has two ways to fail. A panic (nil dereference, index out of range, a panicking
  library call) unwinds the goroutine: it is the \<open>Inl\<close> of \<open>panic + 'a\<close>. An
  \<open>error\<close> is an ordinary return value.

  Pointers that the repository's own data holds (struct fields, slice elements, map
  values, arguments taken from such fields) are \<open>option\<close>s, \<open>None\<close> for nil; a
  method whose source tests its receiver for nil takes an \<open>option\<close> receiver, every
  other receiver is the struct it points to. Go's \<open>int\<close> and \<open>uint\<close> are the
  64-bit ones of the usual platforms: \<open>64 word\<close>, read by \<open>sint\<close> and \<open>unat\<close>.
\<close>

type_synonym bytes = string

datatype panic = NilPointerDereference | IndexOutOfRange | IntnInvalidArgument

datatype error = errors_New string | CorruptInputError | ErrSyntax | ErrRange | TemplateError string

text \<open>\<open>bytes.Compare\<close>: lexicographic comparison of the byte values, -1, 0 or 1.\<close>

fun bytes_Compare :: "bytes \<Rightarrow> bytes \<Rightarrow> int" where
  "bytes_Compare [] [] = 0"
| "bytes_Compare [] (y # ys) = -1"
| "bytes_Compare (x # xs) [] = 1"
| "bytes_Compare (x # xs) (y # ys) =
     (if (of_char x :: nat) < of_char y then -1
      else if (of_char y :: nat) < of_char x then 1
      else bytes_Compare xs ys)"

text \<open>\<open>bytes.HasPrefix\<close> and \<open>bytes.Contains\<close>: \<open>sub\<close> occurs in \<open>b\<close> at some offset.\<close>

fun bytes_HasPrefix :: "bytes \<Rightarrow> bytes \<Rightarrow> bool" where
  "bytes_HasPrefix s [] = True"
| "bytes_HasPrefix [] (p # ps) = False"
| "bytes_HasPrefix (x # xs) (p # ps) = (x = p \<and> bytes_HasPrefix xs ps)"

fun bytes_Contains :: "bytes \<Rightarrow> bytes \<Rightarrow> bool" where
  "bytes_Contains [] sub = (sub = [])"
| "bytes_Contains (x # xs) sub = (bytes_HasPrefix (x # xs) sub \<or> bytes_Contains xs sub)"

section \<open>The regexp package\<close>

text \<open>
  Go's \<open>regexp\<close> package is the standard library's, not this repository's. A compiled
  \<open>*regexp.Regexp\<close> is modelled by its syntax tree, for the byte-level fragment named
  after the operators of \<open>regexp/syntax\<close>: the empty match, a literal byte, a class of
  bytes, \<open>.\<close> (any byte but newline), \<open>^\<close> and \<open>$\<close> without the multi-line flag
  (begin and end of text), concatenation, alternation and the star.

  \<open>matches re b i j\<close>: the expression matches the bytes of \<open>b\<close> from offset \<open>i\<close>
  up to offset \<open>j\<close>, with the whole of \<open>b\<close> as the text around them. A star is a
  chain of non-empty matches of its body; a chain from \<open>i\<close> to \<open>j\<close> has at most
  \<open>j - i\<close> links.
\<close>

datatype regexp =
    EmptyMatch
  | Literal char
  | CharClass "char list"
  | AnyCharNotNL
  | BeginText
  | EndText
  | Concat regexp regexp
  | Alternate regexp regexp
  | Star regexp

primrec star_chain :: "(nat \<Rightarrow> nat \<Rightarrow> bool) \<Rightarrow> nat \<Rightarrow> nat \<Rightarrow> nat \<Rightarrow> bool" where
  "star_chain f 0 i j = (i = j)"
| "star_chain f (Suc n) i j =
     (i = j \<or> list_ex (\<lambda>k. f i k \<and> star_chain f n k j) [Suc i..<Suc j])"

fun matches :: "regexp \<Rightarrow> bytes \<Rightarrow> nat \<Rightarrow> nat \<Rightarrow> bool" where
  "matches EmptyMatch b i j = (i = j \<and> j \<le> length b)"
| "matches (Literal c) b i j = (j = Suc i \<and> i < length b \<and> b ! i = c)"
| "matches (CharClass cs) b i j = (j = Suc i \<and> i < length b \<and> b ! i \<in> set cs)"
| "matches AnyCharNotNL b i j = (j = Suc i \<and> i < length b \<and> b ! i \<noteq> CHR 0x0A)"
| "matches BeginText b i j = (i = 0 \<and> j = 0)"
| "matches EndText b i j = (i = length b \<and> j = length b)"
| "matches (Concat r s) b i j = list_ex (\<lambda>k. matches r b i k \<and> matches s b k j) [i..<Suc j]"
| "matches (Alternate r s) b i j = (matches r b i j \<or> matches s b i j)"
| "matches (Star r) b i j = (j \<le> length b \<and> star_chain (\<lambda>k l. matches r b k l) (j - i) i j)"

text \<open>
  \<open>(*Regexp).Match\<close> "reports whether the byte slice b contains any match of the
  regular expression": a search over every span of \<open>b\<close>, not a match of the whole.
\<close>

definition Regexp_Match :: "regexp \<Rightarrow> bytes \<Rightarrow> bool" where
  "Regexp_Match re b =
     list_ex (\<lambda>i. list_ex (\<lambda>j. matches re b i j) [i..<Suc (length b)]) [0..<Suc (length b)]"

text \<open>The expression of a pattern that is a plain string of literal bytes.\<close>

fun literal :: "string \<Rightarrow> regexp" where
  "literal [] = EmptyMatch"
| "literal [c] = Literal c"
| "literal (c # cs) = Concat (Literal c) (literal cs)"

section \<open>The request\<close>

text \<open>
  Of a \<open>fasthttp.Request\<close> the filters read the header, the query arguments of the URI
  and the body. \<open>Peek\<close> on a header or on the arguments returns the value stored for a
  key, and no bytes for a key that is absent.
\<close>

record Request =
  Header :: "string \<rightharpoonup> bytes"
  QueryArgs :: "string \<rightharpoonup> bytes"
  Body :: bytes

definition Peek :: "(string \<rightharpoonup> bytes) \<Rightarrow> string \<Rightarrow> bytes" where
  "Peek kv k = (case kv k of None \<Rightarrow> [] | Some v \<Rightarrow> v)"

section \<open>Filters\<close>

type_synonym FilterMode = string

definition FilterModeAlwaysTrue :: FilterMode where "FilterModeAlwaysTrue = ''always_true''"
definition FilterModeExact :: FilterMode where "FilterModeExact = ''exact''"
definition FilterModeKeyword :: FilterMode where "FilterModeKeyword = ''keyword''"
definition FilterModeRegular :: FilterMode where "FilterModeRegular = ''regular''"

text \<open>
  \<open>params\<close> is a Go map ranged over by the three loops below: it is the list of its
  entries in the order the \<open>range\<close> visits them. \<open>regulars[k]\<close> is nil for a key
  without a compiled pattern.
\<close>

record HeaderFilterExecutor =
  hfe_params :: "(string \<times> bytes) list"
  hfe_mode :: FilterMode
  hfe_regulars :: "string \<rightharpoonup> regexp"

record QueryFilterExecutor =
  qfe_params :: "(string \<times> bytes) list"
  qfe_mode :: FilterMode
  qfe_regulars :: "string \<rightharpoonup> regexp"

record BodyFilterExecutor =
  bfe_params :: "(string \<times> bytes) list"
  bfe_mode :: FilterMode
  bfe_regular :: "regexp option"
  bfe_keyword :: bytes

record FilterExecutor =
  fe_Query :: "QueryFilterExecutor option"
  fe_Header :: "HeaderFilterExecutor option"
  fe_Body :: "BodyFilterExecutor option"

text \<open>The three loops over \<open>params\<close>, each leaving at the first key that fails.\<close>

fun rangeExactKeyValue :: "(string \<times> bytes) list \<Rightarrow> (string \<rightharpoonup> bytes) \<Rightarrow> bool" where
  "rangeExactKeyValue [] kv = True"
| "rangeExactKeyValue ((k, v) # rest) kv =
     (if bytes_Compare (Peek kv k) v \<noteq> 0 then False else rangeExactKeyValue rest kv)"

fun rangeKeyword :: "(string \<times> bytes) list \<Rightarrow> (string \<rightharpoonup> bytes) \<Rightarrow> bool" where
  "rangeKeyword [] kv = True"
| "rangeKeyword ((k, v) # rest) kv =
     (if \<not> bytes_Contains (Peek kv k) v then False else rangeKeyword rest kv)"

fun rangeRegular ::
  "(string \<times> bytes) list \<Rightarrow> (string \<rightharpoonup> regexp) \<Rightarrow> (string \<rightharpoonup> bytes) \<Rightarrow> panic + bool" where
  "rangeRegular [] regulars kv = Inr True"
| "rangeRegular ((k, v) # rest) regulars kv =
     (case regulars k of
        None \<Rightarrow> Inl NilPointerDereference
      | Some re \<Rightarrow>
          if \<not> Regexp_Match re (Peek kv k) then Inr False else rangeRegular rest regulars kv)"

definition HeaderFilterExecutor_filterByExactKeyValue ::
  "HeaderFilterExecutor \<Rightarrow> (string \<rightharpoonup> bytes) \<Rightarrow> bool" where
  "HeaderFilterExecutor_filterByExactKeyValue hfe header = rangeExactKeyValue (hfe_params hfe) header"

definition HeaderFilterExecutor_filterByKeyword ::
  "HeaderFilterExecutor \<Rightarrow> (string \<rightharpoonup> bytes) \<Rightarrow> bool" where
  "HeaderFilterExecutor_filterByKeyword hfe header = rangeKeyword (hfe_params hfe) header"

definition HeaderFilterExecutor_filterByRegular ::
  "HeaderFilterExecutor \<Rightarrow> (string \<rightharpoonup> bytes) \<Rightarrow> panic + bool" where
  "HeaderFilterExecutor_filterByRegular hfe header =
     rangeRegular (hfe_params hfe) (hfe_regulars hfe) header"

definition HeaderFilterExecutor_Filter ::
  "HeaderFilterExecutor option \<Rightarrow> (string \<rightharpoonup> bytes) \<Rightarrow> panic + bool" where
  "HeaderFilterExecutor_Filter hfe header =
     (case hfe of
        None \<Rightarrow> Inr True
      | Some f \<Rightarrow>
          if hfe_mode f = FilterModeAlwaysTrue then Inr True
          else if hfe_mode f = FilterModeExact then
            Inr (HeaderFilterExecutor_filterByExactKeyValue f header)
          else if hfe_mode f = FilterModeKeyword then
            Inr (HeaderFilterExecutor_filterByExactKeyValue f header)
          else if hfe_mode f = FilterModeRegular then
            HeaderFilterExecutor_filterByRegular f header
          else Inr False)"

definition QueryFilterExecutor_filterByExactKeyValue ::
  "QueryFilterExecutor \<Rightarrow> (string \<rightharpoonup> bytes) \<Rightarrow> bool" where
  "QueryFilterExecutor_filterByExactKeyValue qfe args = rangeExactKeyValue (qfe_params qfe) args"

definition QueryFilterExecutor_filterByKeyword ::
  "QueryFilterExecutor \<Rightarrow> (string \<rightharpoonup> bytes) \<Rightarrow> bool" where
  "QueryFilterExecutor_filterByKeyword qfe args = rangeKeyword (qfe_params qfe) args"

definition QueryFilterExecutor_filterByRegular ::
  "QueryFilterExecutor \<Rightarrow> (string \<rightharpoonup> bytes) \<Rightarrow> panic + bool" where
  "QueryFilterExecutor_filterByRegular qfe args =
     rangeRegular (qfe_params qfe) (qfe_regulars qfe) args"

definition QueryFilterExecutor_Filter ::
  "QueryFilterExecutor option \<Rightarrow> (string \<rightharpoonup> bytes) \<Rightarrow> panic + bool" where
  "QueryFilterExecutor_Filter qfe args =
     (case qfe of
        None \<Rightarrow> Inr True
      | Some f \<Rightarrow>
          if qfe_mode f = FilterModeAlwaysTrue then Inr True
          else if qfe_mode f = FilterModeExact then
            Inr (QueryFilterExecutor_filterByExactKeyValue f args)
          else if qfe_mode f = FilterModeKeyword then
            Inr (QueryFilterExecutor_filterByExactKeyValue f args)
          else if qfe_mode f = FilterModeRegular then
            QueryFilterExecutor_filterByRegular f args
          else Inr False)"

definition BodyFilterExecutor_Filter :: "BodyFilterExecutor option \<Rightarrow> bytes \<Rightarrow> panic + bool" where
  "BodyFilterExecutor_Filter bfe body =
     (case bfe of
        None \<Rightarrow> Inr True
      | Some f \<Rightarrow>
          if bfe_mode f = FilterModeAlwaysTrue then Inr True
          else if bfe_mode f = FilterModeKeyword then Inr (bytes_Contains body (bfe_keyword f))
          else if bfe_mode f = FilterModeRegular then
            (case bfe_regular f of
               None \<Rightarrow> Inl NilPointerDereference
             | Some re \<Rightarrow> Inr (Regexp_Match re body))
          else Inr False)"

text \<open>
  The composite filter calls the header, the query and the body filter in this order
  and returns at the first that does not pass; a panic of a sub-filter that is reached
  is the panic of the whole, one of a sub-filter that is not reached never happens.
\<close>

definition FilterExecutor_Filter :: "FilterExecutor option \<Rightarrow> Request \<Rightarrow> panic + bool" where
  "FilterExecutor_Filter fe request =
     (case fe of
        None \<Rightarrow> Inr True
      | Some f \<Rightarrow>
          (case HeaderFilterExecutor_Filter (fe_Header f) (Header request) of
             Inl p \<Rightarrow> Inl p
           | Inr False \<Rightarrow> Inr False
           | Inr True \<Rightarrow>
               (case QueryFilterExecutor_Filter (fe_Query f) (QueryArgs request) of
                  Inl p \<Rightarrow> Inl p
                | Inr False \<Rightarrow> Inr False
                | Inr True \<Rightarrow>
                    (case BodyFilterExecutor_Filter (fe_Body f) (Body request) of
                       Inl p \<Rightarrow> Inl p
                     | Inr False \<Rightarrow> Inr False
                     | Inr True \<Rightarrow> Inr True))))"

section \<open>The weighted selector\<close>

text \<open>
  \<open>factor\<close> is a Go map from variant names to \<open>uint\<close> weights, ranged over by
  \<open>NewWeightDice\<close>: the list of its entries in the order of the \<open>range\<close>. \<open>total\<close>
  is an \<open>int\<close>, and \<open>total++\<close> wraps around as the machine's addition does.

  The inner loop \<open>for i := 0; i < int(v); i++\<close> compares the counter with the weight
  converted to \<open>int\<close>, which is \<open>sint v\<close>: negative for a weight of \<open>2^63\<close> or more.
  The counter stays below \<open>int(v)\<close>, so its increment never overflows and it is an
  \<open>int\<close> of HOL.
\<close>

record WeightDice =
  total :: "64 word"
  distribution :: "string list"
  factor :: "(string \<times> 64 word) list"

function NewWeightDice_inner :: "int \<Rightarrow> int \<Rightarrow> string \<Rightarrow> WeightDice \<Rightarrow> WeightDice" where
  "NewWeightDice_inner i n k wd =
     (if i < n then
        NewWeightDice_inner (i + 1) n k
          (wd\<lparr>distribution := distribution wd @ [k], total := total wd + 1\<rparr>)
      else wd)"
  by pat_completeness auto
termination
  by (relation "measure (\<lambda>(i, n, k, wd). nat (n - i))") auto

declare NewWeightDice_inner.simps [simp del]

fun NewWeightDice_range :: "(string \<times> 64 word) list \<Rightarrow> WeightDice \<Rightarrow> WeightDice" where
  "NewWeightDice_range [] wd = wd"
| "NewWeightDice_range ((k, v) # rest) wd =
     NewWeightDice_range rest (NewWeightDice_inner 0 (sint v) k wd)"

definition NewWeightDice :: "(string \<times> 64 word) list \<Rightarrow> WeightDice" where
  "NewWeightDice fct = NewWeightDice_range fct \<lparr>total = 0, distribution = [], factor = fct\<rparr>"

text \<open>
  \<open>rand.Intn(n)\<close> panics for \<open>n \<le> 0\<close> and otherwise returns a number from \<open>0\<close> up
  to \<open>n - 1\<close>; \<open>r\<close> is what the random source yields for the call. Indexing the
  distribution outside its length panics.
\<close>

definition rand_Intn :: "int \<Rightarrow> nat \<Rightarrow> panic + nat" where
  "rand_Intn n r = (if n \<le> 0 then Inl IntnInvalidArgument else Inr (r mod nat n))"

definition WeightDice_Dice :: "WeightDice \<Rightarrow> nat \<Rightarrow> panic + string" where
  "WeightDice_Dice wd r =
     (case rand_Intn (sint (total wd)) r of
        Inl p \<Rightarrow> Inl p
      | Inr i \<Rightarrow>
          if i < length (distribution wd) then Inr (distribution wd ! i)
          else Inl IndexOutOfRange)"

text \<open>
  The distribution in the words of the specification, to compare \<open>NewWeightDice\<close>
  with: every variant name as many times as its weight, and the sum of the weights.
\<close>

definition flattened_spec :: "(string \<times> 64 word) list \<Rightarrow> string list" where
  "flattened_spec fct = concat (map (\<lambda>(k, v). replicate (unat v) k) fct)"

definition weight_sum :: "(string \<times> 64 word) list \<Rightarrow> nat" where
  "weight_sum fct = sum_list (map (\<lambda>(k, v). unat v) fct)"

section \<open>Response, template executor and rule executor\<close>

text \<open>
  Of fasthttp's \<open>ResponseHeader\<close> the model keeps the status code and the list of
  header fields; \<open>Set\<close> replaces the value of a key that is present and appends one
  that is not (the key normalisation and the dedicated fields of fasthttp are left
  out), \<open>CopyTo\<close> overwrites the destination. \<open>SetBody\<close> replaces the body of a
  response, the body writer appends to it.
\<close>

record ResponseHeader =
  hdr_statusCode :: "64 word"
  hdr_h :: "(string \<times> string) list"

record Response =
  Response_Header :: ResponseHeader
  Response_body :: bytes

record RequestCtx =
  Request :: Request
  Response :: Response

fun setArg :: "(string \<times> string) list \<Rightarrow> string \<Rightarrow> string \<Rightarrow> (string \<times> string) list" where
  "setArg [] k v = [(k, v)]"
| "setArg ((k', v') # rest) k v = (if k' = k then (k, v) # rest else (k', v') # setArg rest k v)"

definition ResponseHeader_SetStatusCode :: "ResponseHeader \<Rightarrow> 64 word \<Rightarrow> ResponseHeader" where
  "ResponseHeader_SetStatusCode hdr c = hdr\<lparr>hdr_statusCode := c\<rparr>"

definition ResponseHeader_Set :: "ResponseHeader \<Rightarrow> string \<Rightarrow> string \<Rightarrow> ResponseHeader" where
  "ResponseHeader_Set hdr k v = hdr\<lparr>hdr_h := setArg (hdr_h hdr) k v\<rparr>"

definition ResponseHeader_CopyTo :: "ResponseHeader \<Rightarrow> RequestCtx \<Rightarrow> RequestCtx" where
  "ResponseHeader_CopyTo hdr ctx = ctx\<lparr>Response := (Response ctx)\<lparr>Response_Header := hdr\<rparr>\<rparr>"

definition Response_SetBody :: "RequestCtx \<Rightarrow> bytes \<Rightarrow> RequestCtx" where
  "Response_SetBody ctx b = ctx\<lparr>Response := (Response ctx)\<lparr>Response_body := b\<rparr>\<rparr>"

definition Response_Write :: "RequestCtx \<Rightarrow> bytes \<Rightarrow> RequestCtx" where
  "Response_Write ctx b =
     ctx\<lparr>Response := (Response ctx)\<lparr>Response_body := Response_body (Response ctx) @ b\<rparr>\<rparr>"

text \<open>
  \<open>'t\<close> is a parsed \<open>html/template\<close>, \<open>'v\<close> an \<open>interface{}\<close> value of the
  variables and of the JSON body.
\<close>

record 't TemplateExecutor =
  IsGolangTemplate :: bool
  IsBinData :: bool
  te_template :: "'t option"
  te_header :: "ResponseHeader option"
  te_body :: bytes

record 'v RenderContext =
  rc_Variable :: "string \<rightharpoonup> 'v"
  rc_Weight :: "string \<rightharpoonup> string"
  rc_Header :: "string \<rightharpoonup> string"
  rc_Query :: "string \<rightharpoonup> string"
  rc_Form :: "string \<rightharpoonup> string"
  rc_Json :: "string \<rightharpoonup> 'v"

text \<open>
  What \<open>Render\<close> calls and the source files do not hold: the three functions of this
  package that read the request into maps, and the execution of a parsed template,
  which yields the bytes it wrote and its error.
\<close>

record ('t, 'v) render_calls =
  extractHeaderAsParams :: "Request \<Rightarrow> (string \<rightharpoonup> string)"
  extractQueryAsParams :: "Request \<Rightarrow> (string \<rightharpoonup> string)"
  extractBodyAsParams :: "Request \<Rightarrow> (string \<rightharpoonup> string) \<times> (string \<rightharpoonup> 'v)"
  Execute :: "'t \<Rightarrow> 'v RenderContext \<Rightarrow> bytes \<times> error option"

definition TemplateExecutor_Render ::
  "('t, 'v) render_calls \<Rightarrow> 't TemplateExecutor \<Rightarrow> RequestCtx \<Rightarrow> (string \<rightharpoonup> 'v) \<Rightarrow>
     (string \<rightharpoonup> string) \<Rightarrow> panic + (error option \<times> RequestCtx)" where
  "TemplateExecutor_Render calls te ctx v weight =
     (case te_header te of
        None \<Rightarrow> Inl NilPointerDereference
      | Some hdr \<Rightarrow>
          let ctx1 = ResponseHeader_CopyTo hdr ctx in
          if \<not> IsGolangTemplate te then Inr (None, Response_SetBody ctx1 (te_body te))
          else
            let hp = extractHeaderAsParams calls (Request ctx1);
                q = extractQueryAsParams calls (Request ctx1);
                fj = extractBodyAsParams calls (Request ctx1);
                rc = \<lparr>rc_Variable = v, rc_Weight = weight, rc_Header = hp, rc_Query = q,
                      rc_Form = fst fj, rc_Json = snd fj\<rparr>
            in (case te_template te of
                  None \<Rightarrow> Inl NilPointerDereference
                | Some t \<Rightarrow>
                    let out = Execute calls t rc
                    in Inr (snd out, Response_Write ctx1 (fst out))))"

record 't RegulationExecutor =
  IsDefault :: bool
  Filter :: "FilterExecutor option"
  Template :: "'t TemplateExecutor option"

record ('t, 'v) Executor =
  ID :: string
  Method :: bytes
  Path :: "regexp option"
  Variable :: "string \<rightharpoonup> 'v"
  Weight :: "(string \<times> WeightDice option) list"
  Regulations :: "'t RegulationExecutor option list"
  Version :: "64 word"

definition RegulationExecutor_Render ::
  "('t, 'v) render_calls \<Rightarrow> 't RegulationExecutor \<Rightarrow> RequestCtx \<Rightarrow> (string \<rightharpoonup> 'v) \<Rightarrow>
     (string \<rightharpoonup> string) \<Rightarrow> panic + (error option \<times> RequestCtx)" where
  "RegulationExecutor_Render calls re ctx v w =
     (case Template re of
        None \<Rightarrow> Inl NilPointerDereference
      | Some te \<Rightarrow> TemplateExecutor_Render calls te ctx v w)"

definition Executor_Match :: "('t, 'v) Executor \<Rightarrow> bytes \<Rightarrow> bytes \<Rightarrow> panic + bool" where
  "Executor_Match exe path method =
     (if bytes_Compare method (Method exe) \<noteq> 0 then Inr False
      else case Path exe of
             None \<Rightarrow> Inl NilPointerDereference
           | Some re \<Rightarrow> Inr (Regexp_Match re path))"

text \<open>
  The loop of \<open>FindRegulationExecutor\<close>, with \<open>reg\<close> the default seen so far. An entry
  of the slice that is nil panics when its \<open>IsDefault\<close> is read.
\<close>

fun FindRegulationExecutor_range ::
  "'t RegulationExecutor option list \<Rightarrow> Request \<Rightarrow> 't RegulationExecutor option \<Rightarrow>
     panic + 't RegulationExecutor option" where
  "FindRegulationExecutor_range [] request reg = Inr reg"
| "FindRegulationExecutor_range (None # rest) request reg = Inl NilPointerDereference"
| "FindRegulationExecutor_range (Some regulation # rest) request reg =
     (let reg' = (if IsDefault regulation then Some regulation else reg)
      in case FilterExecutor_Filter (Filter regulation) request of
           Inl p \<Rightarrow> Inl p
         | Inr True \<Rightarrow> Inr (Some regulation)
         | Inr False \<Rightarrow> FindRegulationExecutor_range rest request reg')"

definition FindRegulationExecutor ::
  "('t, 'v) Executor \<Rightarrow> Request \<Rightarrow> panic + 't RegulationExecutor option" where
  "FindRegulationExecutor exe request = FindRegulationExecutor_range (Regulations exe) request None"

section \<open>Rule resources and their validation\<close>

text \<open>
  The resources a rule is submitted as. The three parameter maps of a filter and the
  header map of a response template are lists of entries.
\<close>

record ResourceFilter =
  rf_Header :: "(string \<times> string) list"
  rf_Query :: "(string \<times> string) list"
  rf_Body :: "(string \<times> string) list"

record ResourceResponseTemplate =
  IsTemplate :: bool
  rrt_Header :: "(string \<times> string) list"
  StatusCode :: "64 word"
  rrt_Body :: string
  B64EncodedBody :: string

record ResourceResponseRegulation =
  rrr_IsDefault :: bool
  rrr_Filter :: "ResourceFilter option"
  rrr_Response :: "ResourceResponseTemplate option"

text \<open>
  A \<open>check\<close> returns a Go \<open>error\<close>: \<open>None\<close> is nil, the validation succeeded. A
  regulation set is a slice of pointers: the slice itself may be nil, and so may its
  entries, and reading \<open>IsDefault\<close> of a nil entry panics. \<open>d\<close> counts entries of
  the slice, so it stays below the length of the slice and never wraps.
\<close>

definition ResourceResponseRegulation_check :: "ResourceResponseRegulation \<Rightarrow> error option" where
  "ResourceResponseRegulation_check rmr =
     (if \<not> rrr_IsDefault rmr \<and> rrr_Filter rmr = None then
        Some (errors_New ''missing filter rule, or set as default response'')
      else None)"

fun ResourceResponseRegulationSet_range ::
  "ResourceResponseRegulation option list \<Rightarrow> int \<Rightarrow> panic + error option" where
  "ResourceResponseRegulationSet_range [] d =
     (if d \<noteq> 1 then Inr (Some (errors_New ''no default response or provided more than one''))
      else Inr None)"
| "ResourceResponseRegulationSet_range (None # rest) d = Inl NilPointerDereference"
| "ResourceResponseRegulationSet_range (Some r # rest) d =
     (let d' = (if rrr_IsDefault r then d + 1 else d)
      in case ResourceResponseRegulation_check r of
           Some err \<Rightarrow> Inr (Some err)
         | None \<Rightarrow> ResourceResponseRegulationSet_range rest d')"

definition ResourceResponseRegulationSet_check ::
  "ResourceResponseRegulation option list option \<Rightarrow> panic + error option" where
  "ResourceResponseRegulationSet_check mrs =
     (case mrs of
        None \<Rightarrow> Inr (Some (errors_New ''missing mock response''))
      | Some rs \<Rightarrow> ResourceResponseRegulationSet_range rs 0)"

section \<open>The encoding/base64 and strconv packages\<close>

text \<open>
  \<open>base64.StdEncoding.DecodeString\<close> of the standard library: carriage returns and
  line feeds are skipped; the rest is read four characters at a time, each of the
  standard alphabet and worth six bits, into three bytes; the last four may end in
  one or two padding characters and then give two bytes or one; anything else is a
  \<open>CorruptInputError\<close> (whose offset the model drops).
\<close>

definition encodeStd :: string where
  "encodeStd = ''ABCDEFGHIJKLMNOPQRSTUVWXYZabcdefghijklmnopqrstuvwxyz0123456789+/''"

fun index_from :: "string \<Rightarrow> char \<Rightarrow> nat \<Rightarrow> nat option" where
  "index_from [] c n = None"
| "index_from (a # as) c n = (if a = c then Some n else index_from as c (Suc n))"

definition decodeMap :: "char \<Rightarrow> nat option" where
  "decodeMap c = index_from encodeStd c 0"

fun decodeQuantum :: "string \<Rightarrow> error + bytes" where
  "decodeQuantum [] = Inr []"
| "decodeQuantum (a # b # c # d # rest) =
     (case (decodeMap a, decodeMap b) of
        (Some va, Some vb) \<Rightarrow>
          if c = CHR ''='' then
            (if d = CHR ''='' \<and> rest = [] then Inr [char_of (va * 4 + vb div 16)]
             else Inl CorruptInputError)
          else
            (case decodeMap c of
               None \<Rightarrow> Inl CorruptInputError
             | Some vc \<Rightarrow>
                 if d = CHR ''='' then
                   (if rest = [] then
                      Inr [char_of (va * 4 + vb div 16), char_of ((vb mod 16) * 16 + vc div 4)]
                    else Inl CorruptInputError)
                 else
                   (case decodeMap d of
                      None \<Rightarrow> Inl CorruptInputError
                    | Some vd \<Rightarrow>
                        (case decodeQuantum rest of
                           Inl e \<Rightarrow> Inl e
                         | Inr bs \<Rightarrow>
                             Inr (char_of (va * 4 + vb div 16)
                                  # char_of ((vb mod 16) * 16 + vc div 4)
                                  # char_of ((vc mod 4) * 64 + vd) # bs))))
      | _ \<Rightarrow> Inl CorruptInputError)"
| "decodeQuantum _ = Inl CorruptInputError"

definition DecodeString :: "string \<Rightarrow> error + bytes" where
  "DecodeString s = decodeQuantum (filter (\<lambda>c. c \<noteq> CHR 0x0A \<and> c \<noteq> CHR 0x0D) s)"

text \<open>
  \<open>strconv.Atoi\<close>: an optional sign and then decimal digits, at least one, read
  from the left; a byte that is no digit is a syntax error, a value that does not fit
  64 bits, or not the signed range, a range error.
\<close>

definition is_digit :: "char \<Rightarrow> bool" where
  "is_digit c \<longleftrightarrow> (48::nat) \<le> of_char c \<and> of_char c \<le> (57::nat)"

fun parse_digits :: "string \<Rightarrow> nat \<Rightarrow> error + nat" where
  "parse_digits [] n = Inr n"
| "parse_digits (c # cs) n =
     (if \<not> is_digit c then Inl ErrSyntax
      else if 2 ^ 64 \<le> n * 10 + (of_char c - 48) then Inl ErrRange
      else parse_digits cs (n * 10 + (of_char c - 48)))"

definition Atoi :: "string \<Rightarrow> error + 64 word" where
  "Atoi s =
     (let neg = (s \<noteq> [] \<and> hd s = CHR ''-'');
          ds = (if s \<noteq> [] \<and> (hd s = CHR ''-'' \<or> hd s = CHR ''+'') then tl s else s)
      in if ds = [] then Inl ErrSyntax
         else case parse_digits ds 0 of
                Inl e \<Rightarrow> Inl e
              | Inr un \<Rightarrow>
                  if \<not> neg \<and> 2 ^ 63 \<le> un then Inl ErrRange
                  else if neg \<and> 2 ^ 63 < un then Inl ErrRange
                  else Inr (if neg then - of_nat un else of_nat un))"

section \<open>Response templates and template functions\<close>

text \<open>
  \<open>newResponseTemplate\<close> decodes or copies the body, builds the header and, for a
  template, parses the body. \<open>parse\<close> stands for
  \<open>template.New(...).Funcs(defaultTemplateFuncs).Parse\<close> of \<open>html/template\<close>.
  Go returns \<open>(nil, err)\<close> or \<open>(rt, nil)\<close>: the \<open>error + responseTemplate\<close> inside;
  a nil \<open>rrt\<close> panics.
\<close>

record 't responseTemplate =
  isTemplate :: bool
  isBinData :: bool
  rt_header :: "ResponseHeader option"
  rt_body :: bytes
  htmlTemplate :: "'t option"
  raw :: "ResourceResponseTemplate option"

definition newResponseTemplate ::
  "(string \<Rightarrow> error + 't) \<Rightarrow> ResourceResponseTemplate option \<Rightarrow>
     panic + (error + 't responseTemplate)" where
  "newResponseTemplate parse rrt =
     (case rrt of
        None \<Rightarrow> Inl NilPointerDereference
      | Some r \<Rightarrow>
          (case (if B64EncodedBody r \<noteq> [] then
                   (case DecodeString (B64EncodedBody r) of
                      Inl err \<Rightarrow> Inl err
                    | Inr b \<Rightarrow> Inr (True, b))
                 else Inr (False, rrt_Body r)) of
             Inl err \<Rightarrow> Inr (Inl err)
           | Inr (isBin, b) \<Rightarrow>
               let hdr0 = ResponseHeader_SetStatusCode \<lparr>hdr_statusCode = 0, hdr_h = []\<rparr>
                            (StatusCode r);
                   hdr = fold (\<lambda>(k, v) hd'. ResponseHeader_Set hd' k v) (rrt_Header r) hdr0;
                   rt = \<lparr>isTemplate = IsTemplate r, isBinData = isBin, rt_header = Some hdr,
                         rt_body = b, htmlTemplate = None, raw = rrt\<rparr>
               in if isTemplate rt then
                    (case parse (rt_body rt) of
                       Inl err \<Rightarrow> Inr (Inl err)
                     | Inr tmpl \<Rightarrow> Inr (Inr (rt\<lparr>htmlTemplate := Some tmpl\<rparr>)))
                  else Inr (Inr rt)))"

text \<open>
  \<open>render\<close> of the request handler. For a template it needs, of this repository but
  outside the source files, the rule executor's context and weight draws and the maps
  read from the request (\<open>render_context\<close>, which may panic), \<open>rt.render\<close> writing
  into the response (\<open>rt_render\<close>), and the JSON envelope of a render error
  (\<open>error_body\<close>).
\<close>

record ('re, 't, 'rc) handler_calls =
  render_context :: "'re \<Rightarrow> Request \<Rightarrow> panic + 'rc"
  rt_render :: "'t responseTemplate \<Rightarrow> 'rc \<Rightarrow> Response \<Rightarrow> error option \<times> Response"
  error_body :: "error \<Rightarrow> bytes"

definition render ::
  "('re, 't, 'rc) handler_calls \<Rightarrow> 're \<Rightarrow> 't responseTemplate option \<Rightarrow> RequestCtx \<Rightarrow>
     panic + RequestCtx" where
  "render calls re rt ctx =
     (case rt of
        None \<Rightarrow> Inl NilPointerDereference
      | Some t \<Rightarrow>
          (case rt_header t of
             None \<Rightarrow> Inl NilPointerDereference
           | Some hdr \<Rightarrow>
               let ctx1 = ResponseHeader_CopyTo hdr ctx in
               if isTemplate t then
                 (case render_context calls re (Request ctx1) of
                    Inl p \<Rightarrow> Inl p
                  | Inr rc \<Rightarrow>
                      (case rt_render calls t rc (Response ctx1) of
                         (Some err, resp) \<Rightarrow>
                           Inr (Response_SetBody (ctx1\<lparr>Response := resp\<rparr>) (error_body calls err))
                       | (None, resp) \<Rightarrow> Inr (ctx1\<lparr>Response := resp\<rparr>)))
               else Inr (Response_SetBody ctx1 (rt_body t))))"

text \<open>
  The argument of \<open>plus\<close> is an \<open>interface{}\<close>: a value with its dynamic type. The
  type switch has a case for \<open>int\<close>, \<open>float64\<close>, \<open>float32\<close> and \<open>string\<close>;
  every other type takes its \<open>default\<close>, among them \<open>int64\<close> (the type of the
  \<open>timestamp\<close> helper's result), \<open>bool\<close> and nil. Floating-point numbers are not
  modelled: \<open>'f64\<close> and \<open>'f32\<close> are their types, and their addition and the
  conversion from \<open>int\<close> are given.
\<close>

datatype ('f64, 'f32, 'o) any =
    VInt "64 word"
  | VFloat64 'f64
  | VFloat32 'f32
  | VString string
  | VInt64 "64 word"
  | VBool bool
  | VNil
  | VOther 'o

record ('f64, 'f32) float_ops =
  add64 :: "'f64 \<Rightarrow> 'f64 \<Rightarrow> 'f64"
  float64 :: "64 word \<Rightarrow> 'f64"
  add32 :: "'f32 \<Rightarrow> 'f32 \<Rightarrow> 'f32"
  float32 :: "64 word \<Rightarrow> 'f32"

definition plus_func ::
  "('f64, 'f32) float_ops \<Rightarrow> ('f64, 'f32, 'o) any \<Rightarrow> 64 word \<Rightarrow> ('f64, 'f32, 'o) any" where
  "plus_func ops v i =
     (case v of
        VInt n \<Rightarrow> VInt (n + i)
      | VFloat64 x \<Rightarrow> VFloat64 (add64 ops x (float64 ops i))
      | VFloat32 x \<Rightarrow> VFloat32 (add32 ops x (float32 ops i))
      | VString s \<Rightarrow>
          (case Atoi s of
             Inl err \<Rightarrow> VString ''unsupported type''
           | Inr vv \<Rightarrow> VInt (vv + i))
      | _ \<Rightarrow> VString ''unsupported type'')"

text \<open>
  The number a string of decimal digits denotes, to state what \<open>Atoi\<close> parses.
\<close>

definition decimal :: "string \<Rightarrow> nat" where
  "decimal ds = foldl (\<lambda>n c. n * 10 + (of_char c - 48)) 0 ds"

section \<open>Example inputs\<close>

text \<open>
  A filter whose header filter fails on the request below, and whose query and body
  filters would both panic if they were called (regular mode without a compiled
  pattern).
\<close>

definition failing_header_filter :: FilterExecutor where
  "failing_header_filter =
     \<lparr>fe_Query = Some \<lparr>qfe_params = [(''id'', '''')], qfe_mode = FilterModeRegular,
                       qfe_regulars = Map.empty\<rparr>,
      fe_Header = Some \<lparr>hfe_params = [(''X-Env'', ''prod'')], hfe_mode = FilterModeExact,
                        hfe_regulars = Map.empty\<rparr>,
      fe_Body = Some \<lparr>bfe_params = [], bfe_mode = FilterModeRegular, bfe_regular = None,
                      bfe_keyword = []\<rparr>\<rparr>"

definition test_request :: Request where
  "test_request = \<lparr>Header = [''X-Env'' \<mapsto> ''test''], QueryArgs = Map.empty, Body = []\<rparr>"

text \<open>
  An executor for \<open>GET\<close> whose path pattern is the plain string \<open>users\<close>, and one
  whose pattern is \<open>^/users/[0-9][0-9]*$\<close>.
\<close>

definition users_executor :: "(unit, unit) Executor" where
  "users_executor =
     \<lparr>ID = ''users'', Method = ''GET'', Path = Some (literal ''users''), Variable = Map.empty,
      Weight = [], Regulations = [], Version = 0\<rparr>"

definition user_id_path :: regexp where
  "user_id_path =
     Concat (literal ''/users/'')
       (Concat (CharClass ''0123456789'') (Star (CharClass ''0123456789'')))"

definition anchored_executor :: "(unit, unit) Executor" where
  "anchored_executor =
     \<lparr>ID = ''user'', Method = ''GET'',
      Path = Some (Concat BeginText (Concat user_id_path EndText)), Variable = Map.empty,
      Weight = [], Regulations = [], Version = 0\<rparr>"

text \<open>
  Three regulations: one whose header filter wants \<open>X-Env: prod\<close>, one whose header
  filter wants \<open>X-Env: test\<close>, and a default one whose filter wants \<open>X-Env: none\<close>.
  \<open>test_request\<close> carries \<open>X-Env: test\<close>.
\<close>

definition env_filter :: "bytes \<Rightarrow> FilterExecutor" where
  "env_filter v =
     \<lparr>fe_Query = None,
      fe_Header = Some \<lparr>hfe_params = [(''X-Env'', v)], hfe_mode = FilterModeExact,
                        hfe_regulars = Map.empty\<rparr>,
      fe_Body = None\<rparr>"

definition prod_regulation :: "unit RegulationExecutor" where
  "prod_regulation = \<lparr>IsDefault = False, Filter = Some (env_filter ''prod''), Template = None\<rparr>"

definition test_regulation :: "unit RegulationExecutor" where
  "test_regulation = \<lparr>IsDefault = False, Filter = Some (env_filter ''test''), Template = None\<rparr>"

definition default_regulation :: "unit RegulationExecutor" where
  "default_regulation = \<lparr>IsDefault = True, Filter = Some (env_filter ''none''), Template = None\<rparr>"

definition matching_executor :: "(unit, unit) Executor" where
  "matching_executor =
     \<lparr>ID = ''m'', Method = ''GET'', Path = None, Variable = Map.empty, Weight = [],
      Regulations = [Some prod_regulation, Some test_regulation, None], Version = 0\<rparr>"

definition fallback_executor :: "(unit, unit) Executor" where
  "fallback_executor =
     \<lparr>ID = ''f'', Method = ''GET'', Path = None, Variable = Map.empty, Weight = [],
      Regulations = [Some prod_regulation, Some default_regulation], Version = 0\<rparr>"

text \<open>The weight group of the specification's example: \<open>A = 3\<close>, \<open>B = 1\<close>.\<close>

definition three_to_one :: "(string \<times> 64 word) list" where
  "three_to_one = [(''A'', 3), (''B'', 1)]"

text \<open>
  Regulations of a submitted rule: one with a filter, a default one, and one that is
  neither default nor filtered.
\<close>

definition filtered_response :: ResourceResponseRegulation where
  "filtered_response =
     \<lparr>rrr_IsDefault = False,
      rrr_Filter = Some \<lparr>rf_Header = [(''mode'', ''exact''), (''X-Env'', ''prod'')], rf_Query = [],
                         rf_Body = []\<rparr>,
      rrr_Response = None\<rparr>"

definition default_response :: ResourceResponseRegulation where
  "default_response = \<lparr>rrr_IsDefault = True, rrr_Filter = None, rrr_Response = None\<rparr>"

definition unfiltered_response :: ResourceResponseRegulation where
  "unfiltered_response = \<lparr>rrr_IsDefault = False, rrr_Filter = None, rrr_Response = None\<rparr>"

text \<open>
  A response whose body is the base64 of \<open>Hello\<close>, one whose base64 lacks its
  padding, and stand-ins for what rendering a template would call.
\<close>

definition hello_template :: ResourceResponseTemplate where
  "hello_template =
     \<lparr>IsTemplate = False, rrt_Header = [(''Content-Type'', ''text/plain'')], StatusCode = 200,
      rrt_Body = [], B64EncodedBody = ''SGVsbG8=''\<rparr>"

definition unpadded_template :: ResourceResponseTemplate where
  "unpadded_template =
     \<lparr>IsTemplate = False, rrt_Header = [], StatusCode = 200, rrt_Body = [],
      B64EncodedBody = ''SGVsbG8''\<rparr>"

definition no_parse :: "string \<Rightarrow> error + unit" where
  "no_parse s = Inl (TemplateError ''no template functions'')"

definition no_handler_calls :: "(unit, unit, unit) handler_calls" where
  "no_handler_calls =
     \<lparr>render_context = (\<lambda>re rq. Inr ()), rt_render = (\<lambda>t rc resp. (None, resp)),
      error_body = (\<lambda>err. [])\<rparr>"

definition empty_ctx :: RequestCtx where
  "empty_ctx =
     \<lparr>Request = \<lparr>Header = Map.empty, QueryArgs = Map.empty, Body = []\<rparr>,
      Response = \<lparr>Response_Header = \<lparr>hdr_statusCode = 0, hdr_h = []\<rparr>, Response_body = []\<rparr>\<rparr>"

definition hello_executor :: "unit TemplateExecutor" where
  "hello_executor =
     \<lparr>IsGolangTemplate = False, IsBinData = True, te_template = None,
      te_header = Some \<lparr>hdr_statusCode = 200, hdr_h = []\<rparr>, te_body = ''Hello''\<rparr>"

definition no_render_calls :: "(unit, unit) render_calls" where
  "no_render_calls =
     \<lparr>extractHeaderAsParams = (\<lambda>rq. Map.empty), extractQueryAsParams = (\<lambda>rq. Map.empty),
      extractBodyAsParams = (\<lambda>rq. (Map.empty, Map.empty)), Execute = (\<lambda>t rc. ([], None))\<rparr>"

definition unit_ops :: "(unit, unit) float_ops" where
  "unit_ops = \<lparr>add64 = (\<lambda>x y. ()), float64 = (\<lambda>i. ()), add32 = (\<lambda>x y. ()), float32 = (\<lambda>i. ())\<rparr>"

section \<open>Properties of the byte helpers\<close>

lemma bytes_Compare_eq: "bytes_Compare a b = 0 \<longleftrightarrow> a = b"
  by (induction a b rule: bytes_Compare.induct) auto

lemma bytes_HasPrefix_iff: "bytes_HasPrefix b p \<longleftrightarrow> (\<exists>s. b = p @ s)"
  by (induction b p rule: bytes_HasPrefix.induct) auto

lemma bytes_Contains_iff: "bytes_Contains b sub \<longleftrightarrow> (\<exists>p s. b = p @ sub @ s)"
proof (induction b)
  case Nil
  then show ?case by auto
next
  case (Cons x xs)
  show ?case
  proof
    assume "bytes_Contains (x # xs) sub"
    then consider "bytes_HasPrefix (x # xs) sub" | "bytes_Contains xs sub" by auto
    then show "\<exists>p s. x # xs = p @ sub @ s"
    proof cases
      case 1
      then obtain s where "x # xs = sub @ s" by (auto simp: bytes_HasPrefix_iff)
      then have "x # xs = [] @ sub @ s" by simp
      then show ?thesis by blast
    next
      case 2
      then obtain p s where "xs = p @ sub @ s" using Cons.IH by blast
      then have "x # xs = (x # p) @ sub @ s" by simp
      then show ?thesis by blast
    qed
  next
    assume "\<exists>p s. x # xs = p @ sub @ s"
    then obtain p s where e: "x # xs = p @ sub @ s" by blast
    show "bytes_Contains (x # xs) sub"
    proof (cases p)
      case Nil
      with e have "bytes_HasPrefix (x # xs) sub" by (auto simp: bytes_HasPrefix_iff)
      then show ?thesis by simp
    next
      case (Cons a p')
      with e have "xs = p' @ sub @ s" by simp
      then have "bytes_Contains xs sub" using Cons.IH by blast
      then show ?thesis by simp
    qed
  qed
qed

section \<open>Properties of the regexp model\<close>

lemma list_ex_upt: "list_ex P [i..<Suc j] \<longleftrightarrow> (\<exists>k. i \<le> k \<and> k \<le> j \<and> P k)"
  by (auto simp del: upt_Suc simp: list_ex_iff less_Suc_eq_le)

lemma star_chain_Suc:
  "star_chain f (Suc n) i j \<longleftrightarrow>
     i = j \<or> (\<exists>k. i < k \<and> k \<le> j \<and> f i k \<and> star_chain f n k j)"
  by (auto simp del: upt_Suc simp: list_ex_upt Suc_le_eq)

lemma matches_Concat_bounded:
  "matches (Concat r s) b i j \<longleftrightarrow>
     (\<exists>k. i \<le> k \<and> k \<le> j \<and> matches r b i k \<and> matches s b k j)"
  by (simp del: upt_Suc add: list_ex_upt)

lemma Regexp_Match_bounded:
  "Regexp_Match re b \<longleftrightarrow> (\<exists>i j. i \<le> j \<and> j \<le> length b \<and> matches re b i j)"
  by (simp del: upt_Suc add: Regexp_Match_def list_ex_upt) (meson le_trans)

lemma star_chain_le: "star_chain f n i j \<Longrightarrow> i \<le> j"
proof (induction n arbitrary: i)
  case 0
  then show ?case by simp
next
  case (Suc n)
  then consider "i = j" | k where "i < k" "star_chain f n k j"
    unfolding star_chain_Suc by blast
  then show ?case
  proof cases
    case 1
    then show ?thesis by simp
  next
    case 2
    with Suc.IH [of k] show ?thesis by simp
  qed
qed

lemma matches_bounds: "matches re b i j \<Longrightarrow> i \<le> j \<and> j \<le> length b"
proof (induction re arbitrary: i j)
  case (Concat r s)
  then obtain k where "i \<le> k" "matches s b k j"
    unfolding matches_Concat_bounded by blast
  with Concat.IH(2) show ?case by fastforce
next
  case (Star r)
  then show ?case by (auto dest: star_chain_le)
qed auto

lemma matches_Concat_iff:
  "matches (Concat r s) b i j \<longleftrightarrow> (\<exists>k. matches r b i k \<and> matches s b k j)"
  unfolding matches_Concat_bounded using matches_bounds by blast

lemma Regexp_Match_iff: "Regexp_Match re b \<longleftrightarrow> (\<exists>i j. matches re b i j)"
  unfolding Regexp_Match_bounded using matches_bounds by blast

lemma star_chain_mono: "star_chain f n i j \<Longrightarrow> n \<le> m \<Longrightarrow> star_chain f m i j"
proof (induction n arbitrary: m i)
  case 0
  then show ?case by (cases m) auto
next
  case (Suc n)
  then obtain m' where m': "m = Suc m'" "n \<le> m'" by (cases m) auto
  from Suc.prems(1) Suc.IH [OF _ m'(2)] show ?case
    unfolding m' star_chain_Suc by blast
qed

lemma star_chain_rtranclp:
  "star_chain f n i j \<Longrightarrow> (\<lambda>k l. k < l \<and> f k l)\<^sup>*\<^sup>* i j"
proof (induction n arbitrary: i)
  case 0
  then show ?case by simp
next
  case (Suc n)
  show ?case
  proof (cases "i = j")
    case True
    then show ?thesis by simp
  next
    case False
    with Suc.prems obtain k where k: "i < k" "f i k" "star_chain f n k j"
      unfolding star_chain_Suc by blast
    have "(\<lambda>k l. k < l \<and> f k l) i k" using k by simp
    then show ?thesis using Suc.IH [OF k(3)] by (rule converse_rtranclp_into_rtranclp)
  qed
qed

lemma rtranclp_less_le: "(\<lambda>k l. k < l \<and> f k l)\<^sup>*\<^sup>* i j \<Longrightarrow> (i::nat) \<le> j"
  by (induction rule: rtranclp_induct) auto

lemma rtranclp_star_chain:
  "(\<lambda>k l. k < l \<and> f k l)\<^sup>*\<^sup>* i j \<Longrightarrow> star_chain f (j - i) i j"
proof (induction rule: converse_rtranclp_induct)
  case base
  then show ?case by simp
next
  case (step i k)
  then have ik: "i < k" and f: "f i k" by auto
  have kj: "k \<le> j" using step.hyps(2) by (rule rtranclp_less_le)
  obtain m where m: "j - i = Suc m" using ik kj by (cases "j - i") auto
  have "j - k \<le> m" using m ik by arith
  then have "star_chain f m k j" using step.IH star_chain_mono by blast
  with ik kj f show ?case unfolding m star_chain_Suc by blast
qed

lemma matches_Star_iff:
  "matches (Star r) b i j \<longleftrightarrow>
     j \<le> length b \<and> (\<lambda>k l. k < l \<and> matches r b k l)\<^sup>*\<^sup>* i j"
  using star_chain_rtranclp rtranclp_star_chain by auto

lemma Regexp_Match_anchored:
  "Regexp_Match (Concat BeginText (Concat r EndText)) b \<longleftrightarrow> matches r b 0 (length b)"
  by (auto simp del: matches.simps(7) simp: Regexp_Match_iff matches_Concat_iff)

lemma Executor_Match_eq:
  "Path exe = Some re \<Longrightarrow>
     Executor_Match exe path method = Inr (method = Method exe \<and> Regexp_Match re path)"
  by (simp add: Executor_Match_def bytes_Compare_eq)


section \<open>Properties of the filters\<close>

lemmas mode_defs =
  FilterModeAlwaysTrue_def FilterModeExact_def FilterModeKeyword_def FilterModeRegular_def

lemma rangeExactKeyValue_iff:
  "rangeExactKeyValue ps kv \<longleftrightarrow> (\<forall>(k, v) \<in> set ps. Peek kv k = v)"
  by (induction ps kv rule: rangeExactKeyValue.induct) (auto simp: bytes_Compare_eq)

lemma rangeKeyword_iff:
  "rangeKeyword ps kv \<longleftrightarrow> (\<forall>(k, v) \<in> set ps. \<exists>p s. Peek kv k = p @ v @ s)"
  by (induction ps kv rule: rangeKeyword.induct) (auto simp: bytes_Contains_iff)

text \<open>
  In keyword mode the header and the query filter run the loop of the exact mode: they
  pass exactly when every configured key has the configured value, byte for byte.
\<close>

lemma keyword_mode_is_exact:
  "hfe_mode h = FilterModeKeyword \<Longrightarrow>
     HeaderFilterExecutor_Filter (Some h) header =
       Inr (\<forall>(k, v) \<in> set (hfe_params h). Peek header k = v)"
  "qfe_mode q = FilterModeKeyword \<Longrightarrow>
     QueryFilterExecutor_Filter (Some q) args =
       Inr (\<forall>(k, v) \<in> set (qfe_params q). Peek args k = v)"
  by (simp_all add: HeaderFilterExecutor_Filter_def QueryFilterExecutor_Filter_def mode_defs
      HeaderFilterExecutor_filterByExactKeyValue_def QueryFilterExecutor_filterByExactKeyValue_def
      rangeExactKeyValue_iff)

text \<open>
  C1. The claim: in keyword mode the header and the query filter return true exactly
  when every configured key's value contains the configured keyword. The code does
  otherwise: with the keyword \<open>true\<close> configured for \<open>X-Debug\<close> (or for the query
  argument \<open>debug\<close>) and the value \<open>true-value\<close> in the request, which contains the
  keyword, \<open>Filter\<close> returns false, while the containment loops
  \<open>filterByKeyword\<close>, which \<open>Filter\<close> never calls, return true.
\<close>

theorem keyword_mode_rejects_containing_value:
  "HeaderFilterExecutor_Filter
     (Some \<lparr>hfe_params = [(''X-Debug'', ''true'')], hfe_mode = FilterModeKeyword,
            hfe_regulars = Map.empty\<rparr>)
     [''X-Debug'' \<mapsto> ''true-value''] = Inr False
   \<and> QueryFilterExecutor_Filter
     (Some \<lparr>qfe_params = [(''debug'', ''true'')], qfe_mode = FilterModeKeyword,
            qfe_regulars = Map.empty\<rparr>)
     [''debug'' \<mapsto> ''true-value''] = Inr False
   \<and> bytes_Contains ''true-value'' ''true''
   \<and> HeaderFilterExecutor_filterByKeyword
     \<lparr>hfe_params = [(''X-Debug'', ''true'')], hfe_mode = FilterModeKeyword,
      hfe_regulars = Map.empty\<rparr>
     [''X-Debug'' \<mapsto> ''true-value'']
   \<and> QueryFilterExecutor_filterByKeyword
     \<lparr>qfe_params = [(''debug'', ''true'')], qfe_mode = FilterModeKeyword,
      qfe_regulars = Map.empty\<rparr>
     [''debug'' \<mapsto> ''true-value'']"
  by (simp add: HeaderFilterExecutor_Filter_def QueryFilterExecutor_Filter_def mode_defs
      HeaderFilterExecutor_filterByExactKeyValue_def QueryFilterExecutor_filterByExactKeyValue_def
      HeaderFilterExecutor_filterByKeyword_def QueryFilterExecutor_filterByKeyword_def Peek_def)

text \<open>
  C2. A nil composite filter passes, and so does each nil sub-filter. A composite
  filter returns true exactly when its header, query and body filters all return true.
  It evaluates them in this order and stops at the first that fails: when the header
  filter returns false the result is false whatever the query and body filters would
  do (also when they would panic), when the header filter passes and the query filter
  returns false the result is false whatever the body filter would do, and when both
  pass the result is the body filter's.
\<close>

theorem FilterExecutor_Filter_short_circuit:
  "FilterExecutor_Filter None request = Inr True
   \<and> HeaderFilterExecutor_Filter None header = Inr True
   \<and> QueryFilterExecutor_Filter None args = Inr True
   \<and> BodyFilterExecutor_Filter None body = Inr True
   \<and> (FilterExecutor_Filter (Some f) request = Inr True \<longleftrightarrow>
        HeaderFilterExecutor_Filter (fe_Header f) (Header request) = Inr True
        \<and> QueryFilterExecutor_Filter (fe_Query f) (QueryArgs request) = Inr True
        \<and> BodyFilterExecutor_Filter (fe_Body f) (Body request) = Inr True)
   \<and> (HeaderFilterExecutor_Filter (fe_Header f) (Header request) = Inr False \<longrightarrow>
        FilterExecutor_Filter (Some f) request = Inr False)
   \<and> (HeaderFilterExecutor_Filter (fe_Header f) (Header request) = Inr True \<longrightarrow>
      QueryFilterExecutor_Filter (fe_Query f) (QueryArgs request) = Inr False \<longrightarrow>
        FilterExecutor_Filter (Some f) request = Inr False)
   \<and> (HeaderFilterExecutor_Filter (fe_Header f) (Header request) = Inr True \<longrightarrow>
      QueryFilterExecutor_Filter (fe_Query f) (QueryArgs request) = Inr True \<longrightarrow>
        FilterExecutor_Filter (Some f) request =
          BodyFilterExecutor_Filter (fe_Body f) (Body request))"
  by (auto simp: FilterExecutor_Filter_def HeaderFilterExecutor_Filter_def
      QueryFilterExecutor_Filter_def BodyFilterExecutor_Filter_def split: sum.splits bool.splits)

theorem FilterExecutor_Filter_short_circuit_witness:
  "HeaderFilterExecutor_Filter (fe_Header failing_header_filter) (Header test_request) = Inr False
   \<and> QueryFilterExecutor_Filter (fe_Query failing_header_filter) (QueryArgs test_request)
       = Inl NilPointerDereference
   \<and> BodyFilterExecutor_Filter (fe_Body failing_header_filter) (Body test_request)
       = Inl NilPointerDereference
   \<and> FilterExecutor_Filter (Some failing_header_filter) test_request = Inr False"
proof -
  have h: "HeaderFilterExecutor_Filter (fe_Header failing_header_filter) (Header test_request)
             = Inr False"
    by (simp add: failing_header_filter_def test_request_def HeaderFilterExecutor_Filter_def
        mode_defs HeaderFilterExecutor_filterByExactKeyValue_def Peek_def)
  have q: "QueryFilterExecutor_Filter (fe_Query failing_header_filter) (QueryArgs test_request)
             = Inl NilPointerDereference"
    by (simp add: failing_header_filter_def test_request_def QueryFilterExecutor_Filter_def
        mode_defs QueryFilterExecutor_filterByRegular_def)
  have b: "BodyFilterExecutor_Filter (fe_Body failing_header_filter) (Body test_request)
             = Inl NilPointerDereference"
    by (simp add: failing_header_filter_def test_request_def BodyFilterExecutor_Filter_def
        mode_defs)
  from FilterExecutor_Filter_short_circuit [of test_request Map.empty Map.empty "[]"
      failing_header_filter] h
  have "FilterExecutor_Filter (Some failing_header_filter) test_request = Inr False"
    by blast
  with h q b show ?thesis by simp
qed

text \<open>
  C10. A header, query or body filter whose mode is none of the modes its \<open>Filter\<close>
  knows returns false for every input. The body filter knows no exact mode: a body
  filter configured with mode \<open>exact\<close> rejects every body.
\<close>

theorem unknown_mode_rejects:
  "(hfe_mode h \<notin> {FilterModeAlwaysTrue, FilterModeExact, FilterModeKeyword, FilterModeRegular}
      \<longrightarrow> HeaderFilterExecutor_Filter (Some h) header = Inr False)
   \<and> (qfe_mode q \<notin> {FilterModeAlwaysTrue, FilterModeExact, FilterModeKeyword, FilterModeRegular}
      \<longrightarrow> QueryFilterExecutor_Filter (Some q) args = Inr False)
   \<and> (bfe_mode b \<notin> {FilterModeAlwaysTrue, FilterModeKeyword, FilterModeRegular}
      \<longrightarrow> BodyFilterExecutor_Filter (Some b) body = Inr False)
   \<and> (bfe_mode b = FilterModeExact \<longrightarrow> BodyFilterExecutor_Filter (Some b) body = Inr False)"
  by (simp add: HeaderFilterExecutor_Filter_def QueryFilterExecutor_Filter_def
      BodyFilterExecutor_Filter_def mode_defs)

theorem unknown_mode_rejects_witness:
  "HeaderFilterExecutor_Filter
     (Some \<lparr>hfe_params = [(''X-Env'', ''prod'')], hfe_mode = ''prefix'',
            hfe_regulars = Map.empty\<rparr>) [''X-Env'' \<mapsto> ''prod''] = Inr False
   \<and> QueryFilterExecutor_Filter
     (Some \<lparr>qfe_params = [], qfe_mode = '''', qfe_regulars = Map.empty\<rparr>) Map.empty = Inr False
   \<and> BodyFilterExecutor_Filter
     (Some \<lparr>bfe_params = [], bfe_mode = ''exact'', bfe_regular = None, bfe_keyword = []\<rparr>) []
       = Inr False"
  using unknown_mode_rejects
    [of "\<lparr>hfe_params = [(''X-Env'', ''prod'')], hfe_mode = ''prefix'',
          hfe_regulars = Map.empty\<rparr>" "[''X-Env'' \<mapsto> ''prod'']"
        "\<lparr>qfe_params = [], qfe_mode = '''', qfe_regulars = Map.empty\<rparr>" Map.empty
        "\<lparr>bfe_params = [], bfe_mode = ''exact'', bfe_regular = None, bfe_keyword = []\<rparr>" "[]"]
  by (simp add: mode_defs)

section \<open>Properties of the rule executor\<close>

text \<open>
  C4 (counterexample). The claim: \<open>Match\<close> returns true exactly when the methods are equal
  and the pattern matches the full path. For the pattern \<open>users\<close>, the method \<open>GET\<close>
  and the path \<open>/users/42\<close>, \<open>Match\<close> returns true, and the pattern does not match
  the full path: it matches the five bytes from offset 1 only.
\<close>

theorem Executor_Match_finds_pattern_inside_path:
  "Executor_Match users_executor ''/users/42'' ''GET'' = Inr True
   \<and> \<not> matches (literal ''users'') ''/users/42'' 0 (length ''/users/42'')
   \<and> matches (literal ''users'') ''/users/42'' 1 6"
proof -
  have 1: "Regexp_Match (literal ''users'') ''/users/42''" by code_simp
  have 2: "\<not> matches (literal ''users'') ''/users/42'' 0 (length ''/users/42'')" by code_simp
  have 3: "matches (literal ''users'') ''/users/42'' 1 6" by code_simp
  have "Executor_Match users_executor ''/users/42'' ''GET'' = Inr True"
    using 1 by (simp add: Executor_Match_eq users_executor_def)
  with 2 3 show ?thesis by simp
qed

text \<open>
  C4 (amended). For an executor with a compiled path pattern, \<open>Match\<close> never panics
  and returns true exactly when the method bytes equal the configured method byte for
  byte and the pattern matches somewhere in the path, from some offset \<open>i\<close> to some
  offset \<open>j\<close>. When the pattern is anchored at both ends, \<open>^r$\<close>, this is the case
  exactly when \<open>r\<close> matches the full path.
\<close>

theorem Executor_Match_iff:
  "(Path exe = Some re \<longrightarrow>
     Executor_Match exe path method =
       Inr (method = Method exe \<and> (\<exists>i j. i \<le> j \<and> j \<le> length path \<and> matches re path i j)))
   \<and> (Path exe = Some (Concat BeginText (Concat r EndText)) \<longrightarrow>
     Executor_Match exe path method =
       Inr (method = Method exe \<and> matches r path 0 (length path)))"
proof (intro conjI impI)
  assume "Path exe = Some re"
  then show "Executor_Match exe path method =
      Inr (method = Method exe \<and> (\<exists>i j. i \<le> j \<and> j \<le> length path \<and> matches re path i j))"
    by (simp only: Executor_Match_eq Regexp_Match_bounded)
next
  assume "Path exe = Some (Concat BeginText (Concat r EndText))"
  then show "Executor_Match exe path method =
      Inr (method = Method exe \<and> matches r path 0 (length path))"
    by (simp only: Executor_Match_eq Regexp_Match_anchored)
qed

theorem Executor_Match_iff_witness:
  "Path anchored_executor = Some (Concat BeginText (Concat user_id_path EndText))
   \<and> Executor_Match anchored_executor ''/users/42'' ''GET'' = Inr True
   \<and> Executor_Match anchored_executor ''/users/42'' ''get'' = Inr False
   \<and> Executor_Match anchored_executor ''/api/users/42'' ''GET'' = Inr False"
proof -
  let ?re = "Concat BeginText (Concat user_id_path EndText)"
  have p: "Path anchored_executor = Some ?re" by (simp add: anchored_executor_def)
  have m: "Method anchored_executor = ''GET''" by (simp add: anchored_executor_def)
  have 1: "matches user_id_path ''/users/42'' 0 (length ''/users/42'')" by code_simp
  have 2: "\<not> matches user_id_path ''/api/users/42'' 0 (length ''/api/users/42'')" by code_simp
  have e: "Executor_Match anchored_executor pa me =
      Inr (me = Method anchored_executor \<and> matches user_id_path pa 0 (length pa))"
    for pa me
    using Executor_Match_iff [of anchored_executor ?re pa me user_id_path] p by blast
  have "Executor_Match anchored_executor ''/users/42'' ''GET'' = Inr True"
    unfolding e m using 1 by simp
  moreover have "Executor_Match anchored_executor ''/users/42'' ''get'' = Inr False"
    unfolding e m by simp
  moreover have "Executor_Match anchored_executor ''/api/users/42'' ''GET'' = Inr False"
    unfolding e m using 2 by simp
  ultimately show ?thesis using p by simp
qed

lemma range_first_match:
  "\<forall>p \<in> set pre. FilterExecutor_Filter (Filter p) request = Inr False \<Longrightarrow>
   FilterExecutor_Filter (Filter r) request = Inr True \<Longrightarrow>
   FindRegulationExecutor_range (map Some pre @ Some r # post) request reg = Inr (Some r)"
  by (induction pre arbitrary: reg) (auto simp: Let_def)

lemma range_no_match:
  "\<forall>p \<in> set rs. FilterExecutor_Filter (Filter p) request = Inr False \<Longrightarrow>
   FindRegulationExecutor_range (map Some rs) request reg =
     Inr (if filter IsDefault rs = [] then reg else Some (last (filter IsDefault rs)))"
  by (induction rs arbitrary: reg) (auto simp: Let_def)

lemma range_result:
  "FindRegulationExecutor_range rs request reg = Inr x \<Longrightarrow>
     (x = reg \<and> (\<forall>r. Some r \<in> set rs \<longrightarrow> \<not> IsDefault r)) \<or> (\<exists>r. Some r \<in> set rs \<and> x = Some r)"
proof (induction rs request reg rule: FindRegulationExecutor_range.induct)
  case (3 regulation rest request reg)
  then show ?case
    by (fastforce simp: Let_def split: sum.splits bool.splits if_splits)
qed auto

lemma range_total:
  "\<forall>p \<in> set rs. \<exists>b. FilterExecutor_Filter (Filter p) request = Inr b \<Longrightarrow>
   \<exists>x. FindRegulationExecutor_range (map Some rs) request reg = Inr x"
  by (induction rs arbitrary: reg) (auto simp: Let_def split: bool.splits)

text \<open>
  C3. \<open>FindRegulationExecutor\<close> goes through the regulations in their order. When the
  filters of the regulations before \<open>r\<close> return false and the filter of \<open>r\<close>
  returns true, it returns \<open>r\<close>, whatever follows \<open>r\<close> in the list: what follows is
  not evaluated (it may hold nil entries and filters that would panic). When every
  filter returns false it returns the default regulation, the last one if several are
  marked, nil if none is. For a list with exactly one default regulation the result is
  never nil, and if no filter panics it is a regulation of the list.
\<close>

theorem FindRegulationExecutor_first_match_or_default:
  "(Regulations exe = map Some pre @ Some r # post \<longrightarrow>
      (\<forall>p \<in> set pre. FilterExecutor_Filter (Filter p) request = Inr False) \<longrightarrow>
      FilterExecutor_Filter (Filter r) request = Inr True \<longrightarrow>
      FindRegulationExecutor exe request = Inr (Some r))
   \<and> (Regulations exe = map Some rs \<longrightarrow>
      (\<forall>p \<in> set rs. FilterExecutor_Filter (Filter p) request = Inr False) \<longrightarrow>
      FindRegulationExecutor exe request =
        Inr (if filter IsDefault rs = [] then None else Some (last (filter IsDefault rs))))
   \<and> (Regulations exe = map Some rs \<longrightarrow> filter IsDefault rs = [d] \<longrightarrow>
      FindRegulationExecutor exe request \<noteq> Inr None
      \<and> ((\<forall>p \<in> set rs. \<exists>b. FilterExecutor_Filter (Filter p) request = Inr b) \<longrightarrow>
           (\<exists>x \<in> set rs. FindRegulationExecutor exe request = Inr (Some x))))"
proof (intro conjI impI)
  assume "Regulations exe = map Some pre @ Some r # post"
    and "\<forall>p \<in> set pre. FilterExecutor_Filter (Filter p) request = Inr False"
    and "FilterExecutor_Filter (Filter r) request = Inr True"
  then show "FindRegulationExecutor exe request = Inr (Some r)"
    by (simp add: FindRegulationExecutor_def range_first_match)
next
  assume "Regulations exe = map Some rs"
    and "\<forall>p \<in> set rs. FilterExecutor_Filter (Filter p) request = Inr False"
  then show "FindRegulationExecutor exe request =
      Inr (if filter IsDefault rs = [] then None else Some (last (filter IsDefault rs)))"
    by (simp add: FindRegulationExecutor_def range_no_match)
next
  assume rs: "Regulations exe = map Some rs" and d: "filter IsDefault rs = [d]"
  have "d \<in> set (filter IsDefault rs)" using d by simp
  then have dd: "d \<in> set rs" "IsDefault d" by auto
  show nn: "FindRegulationExecutor exe request \<noteq> Inr None"
  proof
    assume "FindRegulationExecutor exe request = Inr None"
    then have "FindRegulationExecutor_range (map Some rs) request None = Inr None"
      by (simp add: FindRegulationExecutor_def rs)
    from range_result [OF this] dd show False by auto
  qed
  assume "\<forall>p \<in> set rs. \<exists>b. FilterExecutor_Filter (Filter p) request = Inr b"
  from range_total [OF this, of None] obtain x
    where x: "FindRegulationExecutor exe request = Inr x"
    by (auto simp: FindRegulationExecutor_def rs)
  then have "FindRegulationExecutor_range (map Some rs) request None = Inr x"
    by (simp add: FindRegulationExecutor_def rs)
  from range_result [OF this] nn x
  show "\<exists>x \<in> set rs. FindRegulationExecutor exe request = Inr (Some x)" by auto
qed

theorem FindRegulationExecutor_first_match_or_default_witness:
  "FilterExecutor_Filter (Filter prod_regulation) test_request = Inr False
   \<and> FilterExecutor_Filter (Filter test_regulation) test_request = Inr True
   \<and> FilterExecutor_Filter (Filter default_regulation) test_request = Inr False
   \<and> FindRegulationExecutor matching_executor test_request = Inr (Some test_regulation)
   \<and> FindRegulationExecutor fallback_executor test_request = Inr (Some default_regulation)"
proof -
  have f: "FilterExecutor_Filter (Filter prod_regulation) test_request = Inr False"
    "FilterExecutor_Filter (Filter test_regulation) test_request = Inr True"
    "FilterExecutor_Filter (Filter default_regulation) test_request = Inr False"
    by (simp_all add: prod_regulation_def test_regulation_def default_regulation_def
        env_filter_def test_request_def FilterExecutor_Filter_def HeaderFilterExecutor_Filter_def
        QueryFilterExecutor_Filter_def BodyFilterExecutor_Filter_def mode_defs
        HeaderFilterExecutor_filterByExactKeyValue_def Peek_def)
  have d: "IsDefault default_regulation" "\<not> IsDefault prod_regulation"
    by (simp_all add: default_regulation_def prod_regulation_def)
  have "FindRegulationExecutor matching_executor test_request = Inr (Some test_regulation)"
    using FindRegulationExecutor_first_match_or_default
      [of matching_executor "[prod_regulation]" test_regulation "[None]" test_request] f
    by (simp add: matching_executor_def)
  moreover have "FindRegulationExecutor fallback_executor test_request
      = Inr (Some default_regulation)"
    using FindRegulationExecutor_first_match_or_default
      [of fallback_executor _ _ _ test_request "[prod_regulation, default_regulation]"
          default_regulation] f d
    by (simp add: fallback_executor_def)
  ultimately show ?thesis using f by simp
qed

section \<open>Properties of the weighted selector\<close>

lemma NewWeightDice_inner_eq:
  "NewWeightDice_inner i n k wd =
     wd\<lparr>distribution := distribution wd @ replicate (nat (n - i)) k,
        total := total wd + of_nat (nat (n - i))\<rparr>"
proof (induction i n k wd rule: NewWeightDice_inner.induct)
  case (1 i n k wd)
  show ?case
  proof (cases "i < n")
    case True
    then have s: "nat (n - i) = Suc (nat (n - (i + 1)))" by arith
    show ?thesis
      by (subst NewWeightDice_inner.simps) (simp add: True "1.IH" s replicate_append_same)
  next
    case False
    then show ?thesis by (subst NewWeightDice_inner.simps) simp
  qed
qed

lemma NewWeightDice_range_eq:
  "NewWeightDice_range fct wd =
     wd\<lparr>distribution :=
          distribution wd @ concat (map (\<lambda>(k, v). replicate (nat (sint v)) k) fct),
        total :=
          total wd + of_nat (length (concat (map (\<lambda>(k, v). replicate (nat (sint v)) k) fct)))\<rparr>"
proof (induction fct arbitrary: wd)
  case Nil
  then show ?case by simp
next
  case (Cons kv fct)
  obtain k v where kv: "kv = (k, v)" by (cases kv)
  show ?case unfolding kv by (simp add: Cons.IH NewWeightDice_inner_eq)
qed

lemma NewWeightDice_eq:
  "NewWeightDice fct =
     \<lparr>total = of_nat (length (concat (map (\<lambda>(k, v). replicate (nat (sint v)) k) fct))),
      distribution = concat (map (\<lambda>(k, v). replicate (nat (sint v)) k) fct),
      factor = fct\<rparr>"
  by (simp add: NewWeightDice_def NewWeightDice_range_eq)

lemma sint_small: "unat v < 2 ^ 63 \<Longrightarrow> sint (v :: 64 word) = int (unat v)"
proof -
  assume "unat v < 2 ^ 63"
  then have "int (unat v) < int (2 ^ 63)" by (rule iffD2 [OF of_nat_less_iff])
  then have u: "uint v < 2 ^ 63" by simp
  have "- (2 ^ 63) \<le> (0::int)" by simp
  also have "0 \<le> uint v" by simp
  finally have "signed_take_bit 63 (uint v) = uint v"
    using u by (rule signed_take_bit_int_eq_self)
  moreover have "sint v = signed_take_bit 63 (uint v)"
    using sint_uint [of v] by simp
  ultimately show ?thesis by simp
qed

lemma sint_of_nat_small: "n < 2 ^ 63 \<Longrightarrow> sint (of_nat n :: 64 word) = int n"
proof -
  assume "n < 2 ^ 63"
  then have "int n < int (2 ^ 63)" by (rule iffD2 [OF of_nat_less_iff])
  then have u: "int n < 2 ^ 63" by simp
  have "- (2 ^ 63) \<le> (0::int)" by simp
  also have "0 \<le> int n" by simp
  finally have "signed_take_bit 63 (int n) = int n"
    using u by (rule signed_take_bit_int_eq_self)
  moreover have "sint (of_nat n :: 64 word) = signed_take_bit 63 (int n)"
    using signed_of_nat [of n, where 'a = int and 'b = 64] by simp
  ultimately show ?thesis by simp
qed

lemma weight_le_sum: "(k, v) \<in> set fct \<Longrightarrow> unat v \<le> weight_sum fct"
  by (induction fct) (auto simp: weight_sum_def)

lemma small_weights_flattened:
  "weight_sum fct < 2 ^ 63 \<Longrightarrow>
     concat (map (\<lambda>(k, v). replicate (nat (sint v)) k) fct) = flattened_spec fct"
proof -
  assume a: "weight_sum fct < 2 ^ 63"
  have "(\<lambda>(k, v). replicate (nat (sint v)) k) kv = (\<lambda>(k, v). replicate (unat v) k) kv"
    if "kv \<in> set fct" for kv
  proof -
    obtain k v where kv: "kv = (k, v)" by (cases kv)
    have "unat v < 2 ^ 63" using weight_le_sum [of k v fct] that a kv by simp
    then show ?thesis by (simp add: kv sint_small)
  qed
  then show ?thesis unfolding flattened_spec_def by (metis (no_types, lifting) map_eq_conv)
qed

lemma length_flattened: "length (flattened_spec fct) = weight_sum fct"
  by (induction fct) (auto simp: flattened_spec_def weight_sum_def)

lemma count_flattened_absent: "k \<notin> fst ` set fct \<Longrightarrow> count_list (flattened_spec fct) k = 0"
  by (induction fct) (auto simp: flattened_spec_def count_list_0_iff)

lemma count_list_replicate': "count_list (replicate n x) y = (if x = y then n else 0)"
  by (induction n) auto

lemma flattened_spec_Cons: "flattened_spec ((k, v) # fct) = replicate (unat v) k @ flattened_spec fct"
  by (simp add: flattened_spec_def)

lemma count_flattened:
  "distinct (map fst fct) \<Longrightarrow> (k, v) \<in> set fct \<Longrightarrow> count_list (flattened_spec fct) k = unat v"
proof (induction fct)
  case Nil
  then show ?case by simp
next
  case (Cons kv fct)
  obtain k' v' where kv: "kv = (k', v')" by (cases kv)
  have absent: "k' \<notin> fst ` set fct" using Cons.prems(1) kv by simp
  show ?case
  proof (cases "(k, v) = (k', v')")
    case True
    then show ?thesis
      using absent by (simp add: kv flattened_spec_Cons count_flattened_absent count_list_replicate')
  next
    case False
    then have in_rest: "(k, v) \<in> set fct" using Cons.prems(2) kv by auto
    then have "k' \<noteq> k" using absent by force
    moreover have "count_list (flattened_spec fct) k = unat v"
      using Cons.IH in_rest Cons.prems(1) by simp
    ultimately show ?thesis by (simp add: kv flattened_spec_Cons count_list_replicate')
  qed
qed

lemma card_index_eq_count: "card {i. i < length xs \<and> xs ! i = x} = count_list xs x"
proof -
  have "{i. i < length xs \<and> xs ! i = x} = {i. i < length xs \<and> x = xs ! i}" by auto
  then show ?thesis by (simp add: count_list_eq_length_filter length_filter_conv_card)
qed

lemma Dice_built:
  assumes "weight_sum fct < 2 ^ 63"
  shows "WeightDice_Dice (NewWeightDice fct) r =
           (if weight_sum fct = 0 then Inl IntnInvalidArgument
            else Inr (flattened_spec fct ! (r mod weight_sum fct)))"
  using assms
  by (simp add: WeightDice_Dice_def rand_Intn_def NewWeightDice_eq small_weights_flattened
      length_flattened sint_of_nat_small)


lemma set_flattened: "set (flattened_spec fct) \<subseteq> fst ` set fct"
  by (induction fct) (auto simp: flattened_spec_def)

lemma Dice_count:
  assumes "distinct (map fst fct)" and "weight_sum fct < 2 ^ 63" and "(k, v) \<in> set fct"
  shows "card {r. r < weight_sum fct \<and> WeightDice_Dice (NewWeightDice fct) r = Inr k} = unat v"
proof -
  have "{r. r < weight_sum fct \<and> WeightDice_Dice (NewWeightDice fct) r = Inr k}
      = {i. i < length (flattened_spec fct) \<and> flattened_spec fct ! i = k}"
    using assms(2) by (auto simp: Dice_built length_flattened)
  then show ?thesis using assms(1,3) by (simp add: card_index_eq_count count_flattened)
qed

text \<open>
  C5 (counterexample). The claim: for every weight factor map each variant name occurs
  exactly its weight many times. The weight \<open>2^63\<close> is a \<open>uint\<close>; converted to
  \<open>int\<close> it is negative, the inner loop does not run, and the name does not occur
  at all.
\<close>

theorem NewWeightDice_drops_weight_of_2_to_63:
  "unat (0x8000000000000000 :: 64 word) = 9223372036854775808
   \<and> distribution (NewWeightDice [(''A'', 0x8000000000000000)]) = []
   \<and> total (NewWeightDice [(''A'', 0x8000000000000000)]) = 0
   \<and> count_list (distribution (NewWeightDice [(''A'', 0x8000000000000000)])) ''A'' = 0"
  by (simp add: NewWeightDice_eq)

text \<open>
  C5 (amended). For every weight factor map whose weights sum to less than \<open>2^63\<close>,
  \<open>NewWeightDice\<close> builds the flattened distribution of the specification: each
  variant name occurs exactly its weight many times, a name that is not configured
  does not occur, and \<open>total\<close> is the sum of the weights and the length of the
  distribution. Of the \<open>total\<close> indices that \<open>rand.Intn\<close> draws from, exactly weight
  many make \<open>Dice\<close> return a given variant: its share is weight / total (three in
  four for \<open>A\<close> and one in four for \<open>B\<close> with weights \<open>A = 3\<close>, \<open>B = 1\<close>).
\<close>

theorem NewWeightDice_flattens:
  assumes "distinct (map fst fct)" and "weight_sum fct < 2 ^ 63"
  shows "distribution (NewWeightDice fct) = flattened_spec fct
   \<and> (\<forall>(k, v) \<in> set fct. count_list (distribution (NewWeightDice fct)) k = unat v)
   \<and> (\<forall>k. k \<notin> fst ` set fct \<longrightarrow> count_list (distribution (NewWeightDice fct)) k = 0)
   \<and> sint (total (NewWeightDice fct)) = int (weight_sum fct)
   \<and> length (distribution (NewWeightDice fct)) = weight_sum fct
   \<and> (\<forall>(k, v) \<in> set fct.
        card {r. r < weight_sum fct \<and> WeightDice_Dice (NewWeightDice fct) r = Inr k} = unat v
        \<and> real (card {r. r < weight_sum fct \<and> WeightDice_Dice (NewWeightDice fct) r = Inr k})
            / real (weight_sum fct) = real (unat v) / real (weight_sum fct))"
proof -
  have d: "distribution (NewWeightDice fct) = flattened_spec fct"
    using assms(2) by (simp add: NewWeightDice_eq small_weights_flattened)
  have t: "sint (total (NewWeightDice fct)) = int (weight_sum fct)"
    using assms(2)
    by (simp add: NewWeightDice_eq small_weights_flattened length_flattened sint_of_nat_small)
  show ?thesis
    using assms by (auto simp: d t count_flattened count_flattened_absent length_flattened Dice_count)
qed

theorem NewWeightDice_flattens_witness:
  "distinct (map fst three_to_one) \<and> weight_sum three_to_one < 2 ^ 63
   \<and> distribution (NewWeightDice three_to_one) = [''A'', ''A'', ''A'', ''B'']
   \<and> sint (total (NewWeightDice three_to_one)) = 4
   \<and> real (card {r. r < 4 \<and> WeightDice_Dice (NewWeightDice three_to_one) r = Inr ''A''}) / 4 = 0.75
   \<and> real (card {r. r < 4 \<and> WeightDice_Dice (NewWeightDice three_to_one) r = Inr ''B''}) / 4 = 0.25"
proof -
  have h: "distinct (map fst three_to_one)" "weight_sum three_to_one < 2 ^ 63"
    by (simp_all add: three_to_one_def weight_sum_def)
  have w: "weight_sum three_to_one = 4" by (simp add: three_to_one_def weight_sum_def)
  have m: "(''A'', 3) \<in> set three_to_one" "(''B'', 1) \<in> set three_to_one"
    by (simp_all add: three_to_one_def)
  note th = NewWeightDice_flattens [OF h]
  have r3: "replicate 3 x = [x, x, x]" for x :: string by (simp add: numeral_3_eq_3)
  have fl: "flattened_spec three_to_one = [''A'', ''A'', ''A'', ''B'']"
    by (simp add: flattened_spec_def three_to_one_def r3)
  have d: "distribution (NewWeightDice three_to_one) = [''A'', ''A'', ''A'', ''B'']"
    using th fl by simp
  have t: "sint (total (NewWeightDice three_to_one)) = 4" using th w by simp
  have c: "\<forall>(k, v) \<in> set three_to_one.
      card {r. r < 4 \<and> WeightDice_Dice (NewWeightDice three_to_one) r = Inr k} = unat v"
    using th unfolding w by blast
  have "card {r. r < 4 \<and> WeightDice_Dice (NewWeightDice three_to_one) r = Inr ''A''} = 3"
    using bspec [OF c m(1)] by simp
  moreover
  have "card {r. r < 4 \<and> WeightDice_Dice (NewWeightDice three_to_one) r = Inr ''B''} = 1"
    using bspec [OF c m(2)] by simp
  ultimately show ?thesis using h d t by simp
qed


text \<open>
  The panic is that of every group whose weights sum to zero, and of no other group
  whose weights sum to less than \<open>2^63\<close>: on a dice built from such a group with a
  positive sum \<open>Dice\<close> returns one of the group's variant names.
\<close>

lemma Dice_succeeds_iff_positive_total:
  assumes "weight_sum fct < 2 ^ 63"
  shows "(weight_sum fct = 0 \<longrightarrow> WeightDice_Dice (NewWeightDice fct) r = Inl IntnInvalidArgument)
    \<and> (0 < weight_sum fct \<longrightarrow>
         (\<exists>k \<in> fst ` set fct. WeightDice_Dice (NewWeightDice fct) r = Inr k))"
proof (intro conjI impI)
  assume "weight_sum fct = 0"
  then show "WeightDice_Dice (NewWeightDice fct) r = Inl IntnInvalidArgument"
    using assms by (simp add: Dice_built)
next
  assume p: "0 < weight_sum fct"
  then have "r mod weight_sum fct < length (flattened_spec fct)"
    by (simp add: length_flattened)
  then have "flattened_spec fct ! (r mod weight_sum fct) \<in> set (flattened_spec fct)"
    by (rule nth_mem)
  then have "flattened_spec fct ! (r mod weight_sum fct) \<in> fst ` set fct"
    using set_flattened by blast
  then show "\<exists>k \<in> fst ` set fct. WeightDice_Dice (NewWeightDice fct) r = Inr k"
    using assms p by (simp add: Dice_built)
qed

lemma Dice_succeeds_iff_positive_total_example:
  "weight_sum three_to_one < 2 ^ 63 \<and> 0 < weight_sum three_to_one
   \<and> WeightDice_Dice (NewWeightDice three_to_one) 2 \<in> {Inr ''A'', Inr ''B''}
   \<and> weight_sum [(''A'', 0)] = 0
   \<and> WeightDice_Dice (NewWeightDice [(''A'', 0)]) 2 = Inl IntnInvalidArgument"
proof -
  have h: "weight_sum three_to_one < 2 ^ 63" "0 < weight_sum three_to_one"
    by (simp_all add: three_to_one_def weight_sum_def)
  have z: "weight_sum [(''A'', 0)] < 2 ^ 63" "weight_sum [(''A'', 0)] = 0"
    by (simp_all add: weight_sum_def)
  have "WeightDice_Dice (NewWeightDice three_to_one) 2 \<in> {Inr ''A'', Inr ''B''}"
    using Dice_succeeds_iff_positive_total [OF h(1), of 2] h(2)
    by (auto simp: three_to_one_def)
  moreover have "WeightDice_Dice (NewWeightDice [(''A'', 0)]) 2 = Inl IntnInvalidArgument"
    using Dice_succeeds_iff_positive_total [OF z(1), of 2] z(2) by blast
  ultimately show ?thesis using h z by simp
qed

section \<open>Properties of the validation\<close>

lemma set_range_no_panic:
  "\<exists>e. ResourceResponseRegulationSet_range (map Some rs) d = Inr e"
  by (induction rs arbitrary: d) (auto simp: Let_def split: option.splits)

lemma set_range_error:
  "ResourceResponseRegulationSet_range os d = Inr (Some e) \<Longrightarrow> \<exists>msg. e = errors_New msg"
  by (induction os d rule: ResourceResponseRegulationSet_range.induct)
    (auto simp: Let_def ResourceResponseRegulation_check_def split: option.splits if_splits)

lemma set_range_ok_entries:
  "ResourceResponseRegulationSet_range os d = Inr None \<Longrightarrow> \<exists>rs. os = map Some rs"
proof (induction os d rule: ResourceResponseRegulationSet_range.induct)
  case (1 d)
  then show ?case by simp
next
  case (2 rest d)
  then show ?case by simp
next
  case (3 r rest d)
  then obtain rs where "rest = map Some rs"
    by (auto simp: Let_def split: option.splits if_splits)
  then have "Some r # rest = map Some (r # rs)" by simp
  then show ?case by (rule exI [of _ "r # rs"])
qed

lemma set_range_ok_iff:
  "ResourceResponseRegulationSet_range (map Some rs) d = Inr None \<longleftrightarrow>
     d + int (length (filter rrr_IsDefault rs)) = 1
     \<and> (\<forall>r \<in> set rs. \<not> rrr_IsDefault r \<longrightarrow> rrr_Filter r \<noteq> None)"
  by (induction rs arbitrary: d)
    (auto simp: Let_def ResourceResponseRegulation_check_def split: option.splits)

text \<open>
  What \<open>check\<close> does on a set none of whose entries is nil: it succeeds exactly when
  one regulation is marked default and every regulation that is not default has a
  filter, and it returns an error otherwise, as it does for the nil set. Success
  implies that no entry is nil.
\<close>

lemma ResourceResponseRegulationSet_check_iff:
  "(ResourceResponseRegulationSet_check mrs = Inr None \<longleftrightarrow>
      (\<exists>rs. mrs = Some (map Some rs) \<and> length (filter rrr_IsDefault rs) = 1
         \<and> (\<forall>r \<in> set rs. \<not> rrr_IsDefault r \<longrightarrow> rrr_Filter r \<noteq> None)))
   \<and> (\<exists>msg. ResourceResponseRegulationSet_check None = Inr (Some (errors_New msg)))
   \<and> (length (filter rrr_IsDefault rs) \<noteq> 1
        \<or> (\<exists>r \<in> set rs. \<not> rrr_IsDefault r \<and> rrr_Filter r = None) \<longrightarrow>
      (\<exists>msg. ResourceResponseRegulationSet_check (Some (map Some rs)) = Inr (Some (errors_New msg))))"
proof (intro conjI)
  show "ResourceResponseRegulationSet_check mrs = Inr None \<longleftrightarrow>
      (\<exists>rs. mrs = Some (map Some rs) \<and> length (filter rrr_IsDefault rs) = 1
         \<and> (\<forall>r \<in> set rs. \<not> rrr_IsDefault r \<longrightarrow> rrr_Filter r \<noteq> None))"
  proof
    assume ok: "ResourceResponseRegulationSet_check mrs = Inr None"
    then obtain os where os: "mrs = Some os" "ResourceResponseRegulationSet_range os 0 = Inr None"
      by (cases mrs) (auto simp: ResourceResponseRegulationSet_check_def)
    from set_range_ok_entries [OF os(2)] obtain rs where rs: "os = map Some rs" by blast
    with os(2) set_range_ok_iff [of rs 0] os(1) show "\<exists>rs. mrs = Some (map Some rs)
        \<and> length (filter rrr_IsDefault rs) = 1
        \<and> (\<forall>r \<in> set rs. \<not> rrr_IsDefault r \<longrightarrow> rrr_Filter r \<noteq> None)"
      by auto
  next
    assume "\<exists>rs. mrs = Some (map Some rs) \<and> length (filter rrr_IsDefault rs) = 1
         \<and> (\<forall>r \<in> set rs. \<not> rrr_IsDefault r \<longrightarrow> rrr_Filter r \<noteq> None)"
    then show "ResourceResponseRegulationSet_check mrs = Inr None"
      using set_range_ok_iff by (auto simp: ResourceResponseRegulationSet_check_def)
  qed
next
  show "\<exists>msg. ResourceResponseRegulationSet_check None = Inr (Some (errors_New msg))"
    by (simp add: ResourceResponseRegulationSet_check_def)
next
  show "length (filter rrr_IsDefault rs) \<noteq> 1
        \<or> (\<exists>r \<in> set rs. \<not> rrr_IsDefault r \<and> rrr_Filter r = None) \<longrightarrow>
      (\<exists>msg. ResourceResponseRegulationSet_check (Some (map Some rs)) = Inr (Some (errors_New msg)))"
  proof
    assume bad: "length (filter rrr_IsDefault rs) \<noteq> 1
        \<or> (\<exists>r \<in> set rs. \<not> rrr_IsDefault r \<and> rrr_Filter r = None)"
    obtain e where e: "ResourceResponseRegulationSet_range (map Some rs) 0 = Inr e"
      using set_range_no_panic by blast
    have "e \<noteq> None" using bad e set_range_ok_iff [of rs 0] by auto
    then obtain err where "e = Some err" by (cases e) auto
    with e set_range_error [of "map Some rs" 0 err]
    show "\<exists>msg. ResourceResponseRegulationSet_check (Some (map Some rs)) = Inr (Some (errors_New msg))"
      by (auto simp: ResourceResponseRegulationSet_check_def)
  qed
qed

lemma ResourceResponseRegulationSet_check_iff_example:
  "ResourceResponseRegulationSet_check (Some [Some filtered_response, Some default_response])
     = Inr None
   \<and> (\<exists>msg. ResourceResponseRegulationSet_check (Some [Some filtered_response])
        = Inr (Some (errors_New msg)))
   \<and> (\<exists>msg. ResourceResponseRegulationSet_check (Some [Some default_response, Some default_response])
        = Inr (Some (errors_New msg)))
   \<and> (\<exists>msg. ResourceResponseRegulationSet_check (Some [Some unfiltered_response, Some default_response])
        = Inr (Some (errors_New msg)))
   \<and> (\<exists>msg. ResourceResponseRegulationSet_check (Some []) = Inr (Some (errors_New msg)))"
proof -
  note th = ResourceResponseRegulationSet_check_iff
  have f: "\<not> rrr_IsDefault filtered_response" "rrr_Filter filtered_response \<noteq> None"
    "rrr_IsDefault default_response" "\<not> rrr_IsDefault unfiltered_response"
    "rrr_Filter unfiltered_response = None"
    by (simp_all add: filtered_response_def default_response_def unfiltered_response_def)
  have "\<exists>rs. Some [Some filtered_response, Some default_response] = Some (map Some rs)
      \<and> length (filter rrr_IsDefault rs) = 1
      \<and> (\<forall>r \<in> set rs. \<not> rrr_IsDefault r \<longrightarrow> rrr_Filter r \<noteq> None)"
    using f by (intro exI [of _ "[filtered_response, default_response]"]) auto
  then have 1: "ResourceResponseRegulationSet_check
      (Some [Some filtered_response, Some default_response]) = Inr None"
    by (rule iffD2 [OF th [of "Some [Some filtered_response, Some default_response]" "[]",
          THEN conjunct1]])
  have 2: "\<exists>msg. ResourceResponseRegulationSet_check (Some [Some filtered_response])
        = Inr (Some (errors_New msg))"
    using th [of None "[filtered_response]"] f by simp
  have 3: "\<exists>msg. ResourceResponseRegulationSet_check
      (Some [Some default_response, Some default_response]) = Inr (Some (errors_New msg))"
    using th [of None "[default_response, default_response]"] f by simp
  have 4: "\<exists>msg. ResourceResponseRegulationSet_check
      (Some [Some unfiltered_response, Some default_response]) = Inr (Some (errors_New msg))"
    using th [of None "[unfiltered_response, default_response]"] f by simp
  have 5: "\<exists>msg. ResourceResponseRegulationSet_check (Some []) = Inr (Some (errors_New msg))"
    using th [of None "[]"] by simp
  show ?thesis using 1 2 3 4 5 by blast
qed

text \<open>
  C7. The claim: validating a regulation set succeeds exactly when the set is not nil,
  exactly one regulation is marked default and every regulation that is not default
  has a filter, and a set with no default or with more than one is rejected with an
  error. The code: \<open>check\<close> reads \<open>r.IsDefault\<close> of every entry without testing the
  entry for nil. The set with a single nil entry, which the JSON \<open>"responses": [null]\<close>
  decodes to, has no default, and the set of two default regulations and a nil entry
  has two; on both \<open>check\<close> panics with a nil dereference and returns no error.
\<close>

theorem ResourceResponseRegulationSet_check_panics_on_nil_entry:
  "ResourceResponseRegulationSet_check (Some [None]) = Inl NilPointerDereference
   \<and> rrr_IsDefault default_response
   \<and> ResourceResponseRegulationSet_check
       (Some [Some default_response, Some default_response, None]) = Inl NilPointerDereference"
  by (simp add: ResourceResponseRegulationSet_check_def ResourceResponseRegulation_check_def
      default_response_def)

section \<open>Properties of the response templates\<close>

lemma newResponseTemplate_static:
  "B64EncodedBody r \<noteq> [] \<Longrightarrow> DecodeString (B64EncodedBody r) = Inr b \<Longrightarrow> \<not> IsTemplate r \<Longrightarrow>
   \<exists>hdr. newResponseTemplate parse (Some r) =
     Inr (Inr \<lparr>isTemplate = False, isBinData = True, rt_header = Some hdr, rt_body = b,
               htmlTemplate = None, raw = Some r\<rparr>)"
  by (simp add: newResponseTemplate_def Let_def)

lemma render_static:
  "\<not> isTemplate t \<Longrightarrow> rt_header t = Some hdr \<Longrightarrow>
   render calls re (Some t) ctx =
     Inr (ctx\<lparr>Response := \<lparr>Response_Header = hdr, Response_body = rt_body t\<rparr>\<rparr>)"
  by (simp add: render_def Let_def ResponseHeader_CopyTo_def Response_SetBody_def)

text \<open>
  C8. A base64 body is decoded by \<open>newResponseTemplate\<close>, when the rule is compiled:
  if the decoding fails, \<open>newResponseTemplate\<close> returns the decoder's error and no
  template; if it succeeds, the decoded bytes are the stored body (and what a template
  is parsed from). Rendering a response that is not a template never fails and copies
  the stored body into the response as it is, through \<open>render\<close> of the handler and
  through \<open>TemplateExecutor.Render\<close> alike. For \<open>SGVsbG8=\<close> with
  \<open>is_template = false\<close> the response body is \<open>Hello\<close>.
\<close>

theorem newResponseTemplate_decodes_once:
  "(B64EncodedBody r \<noteq> [] \<longrightarrow> DecodeString (B64EncodedBody r) = Inl err \<longrightarrow>
      newResponseTemplate parse (Some r) = Inr (Inl err))
   \<and> (B64EncodedBody r \<noteq> [] \<longrightarrow> DecodeString (B64EncodedBody r) = Inr b \<longrightarrow> IsTemplate r \<longrightarrow>
      parse b = Inr tmpl \<longrightarrow>
      (\<exists>rt. newResponseTemplate parse (Some r) = Inr (Inr rt) \<and> rt_body rt = b
         \<and> htmlTemplate rt = Some tmpl))
   \<and> (B64EncodedBody r \<noteq> [] \<longrightarrow> DecodeString (B64EncodedBody r) = Inr b \<longrightarrow> \<not> IsTemplate r \<longrightarrow>
      (\<exists>rt ctx'. newResponseTemplate parse (Some r) = Inr (Inr rt)
         \<and> rt_body rt = b \<and> isBinData rt \<and> \<not> isTemplate rt
         \<and> render calls re (Some rt) ctx = Inr ctx'
         \<and> Response_body (Response ctx') = b))
   \<and> (\<not> IsGolangTemplate te \<longrightarrow> te_header te = Some hdr \<longrightarrow>
      TemplateExecutor_Render rcalls te ctx v w =
        Inr (None, ctx\<lparr>Response := \<lparr>Response_Header = hdr, Response_body = te_body te\<rparr>\<rparr>))
   \<and> (B64EncodedBody r = ''SGVsbG8='' \<longrightarrow> \<not> IsTemplate r \<longrightarrow>
      (\<exists>rt ctx'. newResponseTemplate parse (Some r) = Inr (Inr rt)
         \<and> render calls re (Some rt) ctx = Inr ctx'
         \<and> Response_body (Response ctx') = ''Hello''))"
proof (intro conjI impI)
  assume "B64EncodedBody r \<noteq> []" "DecodeString (B64EncodedBody r) = Inl err"
  then show "newResponseTemplate parse (Some r) = Inr (Inl err)"
    by (simp add: newResponseTemplate_def)
next
  assume "B64EncodedBody r \<noteq> []" "DecodeString (B64EncodedBody r) = Inr b" "IsTemplate r"
    "parse b = Inr tmpl"
  then show "\<exists>rt. newResponseTemplate parse (Some r) = Inr (Inr rt) \<and> rt_body rt = b
         \<and> htmlTemplate rt = Some tmpl"
    by (simp add: newResponseTemplate_def Let_def)
next
  assume a: "B64EncodedBody r \<noteq> []" "DecodeString (B64EncodedBody r) = Inr b" "\<not> IsTemplate r"
  from newResponseTemplate_static [OF a, of parse] obtain hdr' where
    n: "newResponseTemplate parse (Some r) =
     Inr (Inr \<lparr>isTemplate = False, isBinData = True, rt_header = Some hdr', rt_body = b,
               htmlTemplate = None, raw = Some r\<rparr>)" by blast
  show "\<exists>rt ctx'. newResponseTemplate parse (Some r) = Inr (Inr rt)
         \<and> rt_body rt = b \<and> isBinData rt \<and> \<not> isTemplate rt
         \<and> render calls re (Some rt) ctx = Inr ctx'
         \<and> Response_body (Response ctx') = b"
    unfolding n by (simp add: render_static)
next
  assume "\<not> IsGolangTemplate te" "te_header te = Some hdr"
  then show "TemplateExecutor_Render rcalls te ctx v w =
        Inr (None, ctx\<lparr>Response := \<lparr>Response_Header = hdr, Response_body = te_body te\<rparr>\<rparr>)"
    by (simp add: TemplateExecutor_Render_def Let_def ResponseHeader_CopyTo_def
        Response_SetBody_def)
next
  assume a: "B64EncodedBody r = ''SGVsbG8=''" "\<not> IsTemplate r"
  have d: "DecodeString ''SGVsbG8='' = Inr ''Hello''" by code_simp
  have "B64EncodedBody r \<noteq> []" "DecodeString (B64EncodedBody r) = Inr ''Hello''"
    using a(1) d by simp_all
  from newResponseTemplate_static [OF this a(2), of parse] obtain hdr' where
    n: "newResponseTemplate parse (Some r) =
     Inr (Inr \<lparr>isTemplate = False, isBinData = True, rt_header = Some hdr', rt_body = ''Hello'',
               htmlTemplate = None, raw = Some r\<rparr>)" by blast
  show "\<exists>rt ctx'. newResponseTemplate parse (Some r) = Inr (Inr rt)
         \<and> render calls re (Some rt) ctx = Inr ctx'
         \<and> Response_body (Response ctx') = ''Hello''"
    unfolding n by (simp add: render_static)
qed

theorem newResponseTemplate_decodes_once_witness:
  "B64EncodedBody hello_template = ''SGVsbG8='' \<and> \<not> IsTemplate hello_template
   \<and> (\<exists>rt ctx'. newResponseTemplate no_parse (Some hello_template) = Inr (Inr rt)
         \<and> render no_handler_calls () (Some rt) empty_ctx = Inr ctx'
         \<and> Response_body (Response ctx') = ''Hello'')
   \<and> B64EncodedBody unpadded_template \<noteq> []
   \<and> DecodeString (B64EncodedBody unpadded_template) = Inl CorruptInputError
   \<and> newResponseTemplate no_parse (Some unpadded_template) = Inr (Inl CorruptInputError)
   \<and> (\<exists>ctx'. TemplateExecutor_Render no_render_calls hello_executor empty_ctx Map.empty Map.empty
         = Inr (None, ctx') \<and> Response_body (Response ctx') = ''Hello'')"
proof -
  have h: "B64EncodedBody hello_template = ''SGVsbG8=''" "\<not> IsTemplate hello_template"
    by (simp_all add: hello_template_def)
  have u: "B64EncodedBody unpadded_template \<noteq> []"
    by (simp add: unpadded_template_def)
  have "DecodeString ''SGVsbG8'' = Inl CorruptInputError" by code_simp
  then have e: "DecodeString (B64EncodedBody unpadded_template) = Inl CorruptInputError"
    by (simp add: unpadded_template_def)
  have t: "\<not> IsGolangTemplate hello_executor"
    "te_header hello_executor = Some \<lparr>hdr_statusCode = 200, hdr_h = []\<rparr>"
    "te_body hello_executor = ''Hello''"
    by (simp_all add: hello_executor_def)
  have 1: "\<exists>rt ctx'. newResponseTemplate no_parse (Some hello_template) = Inr (Inr rt)
         \<and> render no_handler_calls () (Some rt) empty_ctx = Inr ctx'
         \<and> Response_body (Response ctx') = ''Hello''"
    using newResponseTemplate_decodes_once
      [where r = hello_template and parse = no_parse and calls = no_handler_calls
        and re = "()" and ctx = empty_ctx and err = CorruptInputError and b = "[]"
        and tmpl = "()" and te = hello_executor and rcalls = no_render_calls
        and hdr = "\<lparr>hdr_statusCode = 200, hdr_h = []\<rparr>" and v = Map.empty and w = Map.empty] h
    by simp
  have 2: "newResponseTemplate no_parse (Some unpadded_template) = Inr (Inl CorruptInputError)"
    "TemplateExecutor_Render no_render_calls hello_executor empty_ctx Map.empty Map.empty
       = Inr (None, empty_ctx\<lparr>Response :=
           \<lparr>Response_Header = \<lparr>hdr_statusCode = 200, hdr_h = []\<rparr>, Response_body = ''Hello''\<rparr>\<rparr>)"
    using newResponseTemplate_decodes_once
      [where r = unpadded_template and parse = no_parse and calls = no_handler_calls
        and re = "()" and ctx = empty_ctx and err = CorruptInputError and b = "[]"
        and tmpl = "()" and te = hello_executor and rcalls = no_render_calls
        and hdr = "\<lparr>hdr_statusCode = 200, hdr_h = []\<rparr>" and v = Map.empty and w = Map.empty] u e t
    by simp_all
  show ?thesis using h u e 1 2 by simp
qed

section \<open>Properties of the template functions\<close>

lemma foldl_decimal_ge: "(m::nat) \<le> foldl (\<lambda>n c. n * 10 + (of_char c - 48)) m cs"
proof (induction cs arbitrary: m)
  case Nil
  then show ?case by simp
next
  case (Cons c cs)
  have "m \<le> m * 10 + (of_char c - 48)" by simp
  also have "\<dots> \<le> foldl (\<lambda>n c. n * 10 + (of_char c - 48)) (m * 10 + (of_char c - 48)) cs"
    by (rule Cons.IH)
  finally show ?case by simp
qed

lemma parse_digits_decimal:
  "list_all is_digit ds \<Longrightarrow> foldl (\<lambda>n c. n * 10 + (of_char c - 48)) (m::nat) ds < 2 ^ 64 \<Longrightarrow>
   parse_digits ds m = Inr (foldl (\<lambda>n c. n * 10 + (of_char c - 48)) m ds)"
proof (induction ds arbitrary: m)
  case Nil
  then show ?case by simp
next
  case (Cons c cs)
  have "m * 10 + (of_char c - 48) \<le>
      foldl (\<lambda>n c. n * 10 + (of_char c - 48)) (m * 10 + (of_char c - 48)) cs"
    by (rule foldl_decimal_ge)
  then have "m * 10 + (of_char c - 48) < 2 ^ 64" using Cons.prems(2) by simp
  then show ?case using Cons by simp
qed

lemma is_digit_not_sign: "is_digit c \<Longrightarrow> c \<noteq> CHR ''-'' \<and> c \<noteq> CHR ''+''"
  by (auto simp: is_digit_def)

lemma Atoi_decimal:
  assumes "ds \<noteq> []" "list_all is_digit ds" "decimal ds < 2 ^ 63"
  shows "Atoi ds = Inr (of_nat (decimal ds))" and "Atoi (CHR ''+'' # ds) = Inr (of_nat (decimal ds))"
proof -
  have "decimal ds < 2 ^ 64" using assms(3) by simp
  then have p: "parse_digits ds 0 = Inr (decimal ds)"
    using parse_digits_decimal [OF assms(2), of 0] by (simp add: decimal_def)
  have "is_digit (hd ds)" using assms(1,2) by (cases ds) auto
  then have s: "hd ds \<noteq> CHR ''-''" "hd ds \<noteq> CHR ''+''" using is_digit_not_sign by blast+
  show "Atoi ds = Inr (of_nat (decimal ds))"
    using assms(1,3) s p by (simp add: Atoi_def)
  show "Atoi (CHR ''+'' # ds) = Inr (of_nat (decimal ds))"
    using assms(1,3) p by (simp add: Atoi_def)
qed

lemma Atoi_negative:
  assumes "ds \<noteq> []" "list_all is_digit ds" "decimal ds \<le> 2 ^ 63"
  shows "Atoi (CHR ''-'' # ds) = Inr (- of_nat (decimal ds))"
proof -
  have "decimal ds < 2 ^ 64" using assms(3) by simp
  then have p: "parse_digits ds 0 = Inr (decimal ds)"
    using parse_digits_decimal [OF assms(2), of 0] by (simp add: decimal_def)
  show ?thesis using assms(1,3) p by (simp add: Atoi_def)
qed

text \<open>
  C9 (counterexample). The claim: \<open>plus\<close> accepts integer and numeric-string inputs
  and returns their sum with the increment. For the integer \<open>int64(5)\<close> and for the
  numeric string \<open>1.5\<close> it returns the marker \<open>unsupported type\<close>.
\<close>

theorem plus_func_rejects_int64_and_decimal_fraction:
  "plus_func unit_ops (VInt64 5 :: (unit, unit, unit) any) 1 = VString ''unsupported type''
   \<and> plus_func unit_ops (VString ''1.5'' :: (unit, unit, unit) any) 1 = VString ''unsupported type''"
  by (simp add: plus_func_def Atoi_def is_digit_def)

text \<open>
  C9 (amended). \<open>plus\<close> returns the sum with its increment for an \<open>int\<close>, a
  \<open>float64\<close>, a \<open>float32\<close> and a string that \<open>strconv.Atoi\<close> parses, which every
  string of decimal digits with an optional sign and a value in the range of \<open>int\<close>
  is. For every other input, a string that \<open>Atoi\<close> rejects or a value of another
  type (\<open>int64\<close>, \<open>bool\<close>, nil, anything else), it returns the string
  \<open>unsupported type\<close>. It is a total function: it raises no error and never panics.
\<close>

theorem plus_func_cases:
  "plus_func ops (VInt n) i = VInt (n + i)
   \<and> plus_func ops (VFloat64 x) i = VFloat64 (add64 ops x (float64 ops i))
   \<and> plus_func ops (VFloat32 y) i = VFloat32 (add32 ops y (float32 ops i))
   \<and> (Atoi s = Inr vv \<longrightarrow> plus_func ops (VString s) i = VInt (vv + i))
   \<and> (ds \<noteq> [] \<longrightarrow> list_all is_digit ds \<longrightarrow> decimal ds < 2 ^ 63 \<longrightarrow>
        plus_func ops (VString ds) i = VInt (of_nat (decimal ds) + i)
        \<and> plus_func ops (VString (CHR ''+'' # ds)) i = VInt (of_nat (decimal ds) + i))
   \<and> (ds \<noteq> [] \<longrightarrow> list_all is_digit ds \<longrightarrow> decimal ds \<le> 2 ^ 63 \<longrightarrow>
        plus_func ops (VString (CHR ''-'' # ds)) i = VInt (- of_nat (decimal ds) + i))
   \<and> ((\<forall>vv. Atoi s \<noteq> Inr vv) \<longrightarrow> plus_func ops (VString s) i = VString ''unsupported type'')
   \<and> plus_func ops (VInt64 m) i = VString ''unsupported type''
   \<and> plus_func ops (VBool t) i = VString ''unsupported type''
   \<and> plus_func ops VNil i = VString ''unsupported type''
   \<and> plus_func ops (VOther z) i = VString ''unsupported type''"
proof -
  have "(\<forall>vv. Atoi s \<noteq> Inr vv) \<longrightarrow> plus_func ops (VString s) i = VString ''unsupported type''"
    by (cases "Atoi s") (simp_all add: plus_func_def)
  then show ?thesis
    by (simp add: plus_func_def Atoi_decimal Atoi_negative)
qed

theorem plus_func_cases_witness:
  "Atoi ''41'' = Inr 41
   \<and> plus_func unit_ops (VString ''41'' :: (unit, unit, unit) any) 1 = VInt 42
   \<and> list_all is_digit ''41'' \<and> decimal ''41'' = 41
   \<and> plus_func unit_ops (VString ''-41'' :: (unit, unit, unit) any) 1 = VInt (- 40)
   \<and> (\<forall>vv. Atoi ''4x'' \<noteq> Inr vv)
   \<and> plus_func unit_ops (VString ''4x'' :: (unit, unit, unit) any) 1 = VString ''unsupported type''"
proof -
  have a: "Atoi ''41'' = Inr 41" by (simp add: Atoi_def is_digit_def)
  have x: "\<forall>vv. Atoi ''4x'' \<noteq> Inr vv" by (simp add: Atoi_def is_digit_def)
  have d: "''41'' \<noteq> []" "list_all is_digit ''41''" "decimal ''41'' = 41"
    by (simp_all add: is_digit_def decimal_def)
  have r: "decimal ''41'' \<le> 2 ^ 63" unfolding d(3) by simp
  note th = plus_func_cases [where ops = unit_ops and i = 1 and ds = "''41''" and n = 0
      and m = 0 and t = True and z = "()" and x = "()" and y = "()"]
  have "plus_func unit_ops (VString ''41'' :: (unit, unit, unit) any) 1 = VInt (41 + 1)"
    using th [where s = "''41''" and vv = 41] a by blast
  then have 1: "plus_func unit_ops (VString ''41'' :: (unit, unit, unit) any) 1 = VInt 42"
    by simp
  have "plus_func unit_ops (VString (CHR ''-'' # ''41'') :: (unit, unit, unit) any) 1
      = VInt (- of_nat (decimal ''41'') + 1)"
    using th [where s = "''41''" and vv = 41] d(1,2) r by blast
  then have 2: "plus_func unit_ops (VString ''-41'' :: (unit, unit, unit) any) 1 = VInt (- 40)"
    unfolding d(3) by simp
  have 3:
    "plus_func unit_ops (VString ''4x'' :: (unit, unit, unit) any) 1 = VString ''unsupported type''"
    using th [where s = "''4x''" and vv = 0] x by blast
  show ?thesis using a x d 1 2 3 by simp
qed

end
